theory Spec2Isabelle
  imports Main
begin

section \<open>Entities\<close>

text \<open>
  The parking lot of \<^verbatim>\<open>parkinglot.py\<close>. Python's unbounded integers are \<^typ>\<open>int\<close>,
  a dictionary is a map, a \<^verbatim>\<open>set\<close> of spot ids is an \<^typ>\<open>int set\<close>. Class attributes are
  record fields named \<^verbatim>\<open>Class_attribute\<close>.
\<close>

datatype VehicleType = CAR | BIKE

record Vehicle =
  Vehicle_vtype :: VehicleType
  Vehicle_reg :: string

record Spot =
  Spot_id :: int
  Spot_vtype :: VehicleType
  Spot_is_occupied :: bool
  Spot_vehicle :: "Vehicle option"

record Level =
  Level_id :: int
  Level_spots :: "int \<rightharpoonup> Spot"
  Level_free_spots :: "VehicleType \<Rightarrow> int set"
  Level_free_count :: "VehicleType \<Rightarrow> int"

text \<open>
  \<^verbatim>\<open>ParkingLot.levels\<close> is a list of references to \<^verbatim>\<open>Level\<close> objects: \<^verbatim>\<open>add_level\<close> appends
  whatever object it is given, so the same object may occur twice and two objects may
  carry the same id. Levels therefore live in a store and the lot holds references.
\<close>

type_synonym ref = nat

record ParkingLot =
  ParkingLot_levels :: "ref list"

record state =
  store :: "ref \<Rightarrow> Level"
  lot :: ParkingLot

text \<open>The exceptions the code can raise: \<^verbatim>\<open>ValueError(msg)\<close> in \<^verbatim>\<open>unpark\<close>, and the
  \<^verbatim>\<open>KeyError\<close> of the dictionary lookup \<^verbatim>\<open>level.spots[spot_id]\<close> in \<^verbatim>\<open>park\<close>.\<close>

datatype error = KeyError | ValueError string

section \<open>Constructors\<close>

definition Spot_init :: "int \<Rightarrow> VehicleType \<Rightarrow> Spot" where
  "Spot_init spot_id vtype =
     \<lparr>Spot_id = spot_id, Spot_vtype = vtype, Spot_is_occupied = False, Spot_vehicle = None\<rparr>"

text \<open>The body of the two loops of \<^verbatim>\<open>Level.__init__\<close>, for the loop's vehicle type.\<close>

definition init_spot :: "VehicleType \<Rightarrow> Level \<Rightarrow> int \<Rightarrow> Level" where
  "init_spot vtype self i =
     self\<lparr>Level_spots := (Level_spots self)(i \<mapsto> Spot_init i vtype),
          Level_free_spots := (Level_free_spots self)(vtype := insert i (Level_free_spots self vtype)),
          Level_free_count := (Level_free_count self)(vtype := Level_free_count self vtype + 1)\<rparr>"

text \<open>\<^verbatim>\<open>range(1, car_spots + 1)\<close> is \<open>[1..car_spots]\<close>, empty when \<open>car_spots < 1\<close>;
  \<^verbatim>\<open>range(car_spots + 1, car_spots + bike_spots + 1)\<close> is \<open>[car_spots + 1..car_spots + bike_spots]\<close>.\<close>

definition Level_init :: "int \<Rightarrow> int \<Rightarrow> int \<Rightarrow> Level" where
  "Level_init level_id car_spots bike_spots =
     foldl (init_spot BIKE)
       (foldl (init_spot CAR)
          \<lparr>Level_id = level_id, Level_spots = Map.empty,
           Level_free_spots = (\<lambda>_. {}), Level_free_count = (\<lambda>_. 0)\<rparr>
          [1..car_spots])
       [car_spots + 1..car_spots + bike_spots]"

definition ParkingLot_init :: ParkingLot where
  "ParkingLot_init = \<lparr>ParkingLot_levels = []\<rparr>"

definition add_level :: "ParkingLot \<Rightarrow> ref \<Rightarrow> ParkingLot" where
  "add_level self level = self\<lparr>ParkingLot_levels := ParkingLot_levels self @ [level]\<rparr>"

section \<open>Core methods\<close>

text \<open>
  \<^verbatim>\<open>free_set.pop()\<close> removes and returns an arbitrary element of a non-empty set. The
  choice is resolved by an extra argument \<open>hint\<close>: the element popped is \<open>hint\<close> when it is in
  the set (so every element the runtime may choose is covered) and the least one otherwise.
\<close>

definition set_pop :: "int \<Rightarrow> int set \<Rightarrow> int \<times> int set" where
  "set_pop hint free_set =
     (let spot_id = (if hint \<in> free_set then hint else Min free_set)
      in (spot_id, free_set - {spot_id}))"

text \<open>The body of the loop of \<^verbatim>\<open>park\<close> after the \<^verbatim>\<open>continue\<close> test, on one level. The
  set has been popped when the dictionary lookup raises.\<close>

definition park_in :: "Level \<Rightarrow> int \<Rightarrow> Vehicle \<Rightarrow> Level \<times> (error + int option \<times> int option)" where
  "park_in level hint vehicle =
     (let (spot_id, free_set) = set_pop hint (Level_free_spots level (Vehicle_vtype vehicle));
          level = level\<lparr>Level_free_spots := (Level_free_spots level)(Vehicle_vtype vehicle := free_set)\<rparr>
      in case Level_spots level spot_id of
           None \<Rightarrow> (level, Inl KeyError)
         | Some spot \<Rightarrow>
             let spot = spot\<lparr>Spot_is_occupied := True, Spot_vehicle := Some vehicle\<rparr>;
                 level = level\<lparr>Level_spots := (Level_spots level)(spot_id \<mapsto> spot),
                               Level_free_count := (Level_free_count level)
                                 (Vehicle_vtype vehicle := Level_free_count level (Vehicle_vtype vehicle) - 1)\<rparr>
             in (level, Inr (Some (Level_id level), Some (Spot_id spot))))"

fun park_loop :: "(ref \<Rightarrow> Level) \<Rightarrow> ref list \<Rightarrow> int \<Rightarrow> Vehicle
    \<Rightarrow> (ref \<Rightarrow> Level) \<times> (error + int option \<times> int option)" where
  "park_loop h [] hint vehicle = (h, Inr (None, None))"
| "park_loop h (r # rs) hint vehicle =
     (if Level_free_spots (h r) (Vehicle_vtype vehicle) = {} then park_loop h rs hint vehicle
      else let (level, res) = park_in (h r) hint vehicle in (h(r := level), res))"

definition park :: "state \<Rightarrow> int \<Rightarrow> Vehicle \<Rightarrow> state \<times> (error + int option \<times> int option)" where
  "park s hint vehicle =
     (let (h, res) = park_loop (store s) (ParkingLot_levels (lot s)) hint vehicle
      in (s\<lparr>store := h\<rparr>, res))"

definition unpark :: "state \<Rightarrow> int \<Rightarrow> int \<Rightarrow> state \<times> (error + unit)" where
  "unpark s level_id spot_id =
     (case find (\<lambda>l. Level_id (store s l) = level_id) (ParkingLot_levels (lot s)) of
        None \<Rightarrow> (s, Inl (ValueError ''Invalid level ID''))
      | Some r \<Rightarrow>
          let level = store s r in
          (case Level_spots level spot_id of
             None \<Rightarrow> (s, Inl (ValueError ''Invalid spot ID''))
           | Some spot \<Rightarrow>
               if \<not> Spot_is_occupied spot then (s, Inl (ValueError ''Spot already empty''))
               else
                 let vehicle_type = Spot_vtype spot;
                     spot = spot\<lparr>Spot_is_occupied := False, Spot_vehicle := None\<rparr>;
                     level = level\<lparr>Level_spots := (Level_spots level)(spot_id \<mapsto> spot),
                                   Level_free_spots := (Level_free_spots level)
                                     (vehicle_type := insert spot_id (Level_free_spots level vehicle_type)),
                                   Level_free_count := (Level_free_count level)
                                     (vehicle_type := Level_free_count level vehicle_type + 1)\<rparr>
                 in (s\<lparr>store := (store s)(r := level)\<rparr>, Inr ())))"

text \<open>The three messages of \<^verbatim>\<open>unpark\<close> under the names of the error taxonomy.\<close>

definition UnknownLevel :: error where "UnknownLevel = ValueError ''Invalid level ID''"
definition UnknownSpot :: error where "UnknownSpot = ValueError ''Invalid spot ID''"
definition AlreadyFree :: error where "AlreadyFree = ValueError ''Spot already empty''"

subsection \<open>Reporting\<close>

function str_nat :: "nat \<Rightarrow> string" where
  "str_nat n = (if n < 10 then [char_of (48 + n)] else str_nat (n div 10) @ [char_of (48 + n mod 10)])"
  by pat_completeness auto
termination
  by (relation "measure id") auto

definition str_int :: "int \<Rightarrow> string" where
  "str_int i = (if i < 0 then CHR ''-'' # str_nat (nat (- i)) else str_nat (nat i))"

text \<open>The loop of \<^verbatim>\<open>display_availability\<close>: the lines printed are collected; the store is
  read and passed on.\<close>

fun display_loop :: "(ref \<Rightarrow> Level) \<Rightarrow> ref list \<Rightarrow> string list \<Rightarrow> (ref \<Rightarrow> Level) \<times> string list" where
  "display_loop h [] out = (h, out)"
| "display_loop h (r # rs) out =
     display_loop h rs
       (out @ [''Level '' @ str_int (Level_id (h r))
                 @ '': CAR='' @ str_int (Level_free_count (h r) CAR)
                 @ '', BIKE='' @ str_int (Level_free_count (h r) BIKE)])"

definition display_availability :: "state \<Rightarrow> state \<times> string list" where
  "display_availability s =
     (let (h, out) = display_loop (store s) (ParkingLot_levels (lot s))
                       [''----- Parking Availability -----'']
      in (s\<lparr>store := h\<rparr>, out @ [''--------------------------------'']))"

section \<open>Programs over a lot\<close>

text \<open>
  A client constructs levels with \<^verbatim>\<open>Level(level_id, car_spots, bike_spots)\<close>, adds them to
  the lot and calls \<^verbatim>\<open>park\<close>, \<^verbatim>\<open>unpark\<close> and \<^verbatim>\<open>display_availability\<close>, catching the exceptions
  or not. Constructing a level touches no other object, so the store of the start state
  holds at reference \<open>r\<close> the level that the \<open>r\<close>-th constructor call builds, and the lot is
  empty; a level takes part in the lot from the \<open>AddLevel\<close> that appends its reference.
\<close>

record LevelArgs =
  level_id_arg :: int
  car_spots_arg :: int
  bike_spots_arg :: int

definition new_level :: "LevelArgs \<Rightarrow> Level" where
  "new_level a = Level_init (level_id_arg a) (car_spots_arg a) (bike_spots_arg a)"

definition start :: "(ref \<Rightarrow> LevelArgs) \<Rightarrow> state" where
  "start args = \<lparr>store = (\<lambda>r. new_level (args r)), lot = ParkingLot_init\<rparr>"

datatype op = AddLevel ref | Park int Vehicle | Unpark int int | Display

datatype result =
    Added
  | Parked "error + int option \<times> int option"
  | Unparked "error + unit"
  | Displayed "string list"

fun exec_op :: "state \<Rightarrow> op \<Rightarrow> state \<times> result" where
  "exec_op s (AddLevel r) = (s\<lparr>lot := add_level (lot s) r\<rparr>, Added)"
| "exec_op s (Park hint vehicle) = (let (s', res) = park s hint vehicle in (s', Parked res))"
| "exec_op s (Unpark level_id spot_id) = (let (s', res) = unpark s level_id spot_id in (s', Unparked res))"
| "exec_op s Display = (let (s', out) = display_availability s in (s', Displayed out))"

fun run :: "state \<Rightarrow> op list \<Rightarrow> state" where
  "run s [] = s"
| "run s (x # xs) = run (fst (exec_op s x)) xs"

text \<open>A call of \<^verbatim>\<open>park\<close> with a vehicle of type \<open>t\<close> that returned a location.\<close>

fun assigned :: "VehicleType \<Rightarrow> op \<Rightarrow> result \<Rightarrow> bool" where
  "assigned t (Park hint vehicle) (Parked (Inr (Some l, Some i))) = (Vehicle_vtype vehicle = t)"
| "assigned t _ _ = False"

text \<open>The number of such calls in a program run from state \<open>s\<close>.\<close>

fun parked :: "VehicleType \<Rightarrow> state \<Rightarrow> op list \<Rightarrow> nat" where
  "parked t s [] = 0"
| "parked t s (x # xs) =
     (if assigned t x (snd (exec_op s x)) then 1 else 0) + parked t (fst (exec_op s x)) xs"

text \<open>The operations that neither release a spot nor extend the lot.\<close>

fun parks_or_reads :: "op \<Rightarrow> bool" where
  "parks_or_reads (Park hint vehicle) = True"
| "parks_or_reads Display = True"
| "parks_or_reads _ = False"

section \<open>Invariants of a level\<close>

text \<open>The ids of the spots of a level that have type \<open>t\<close> and occupancy \<open>occ\<close>.\<close>

definition spot_ids :: "Level \<Rightarrow> VehicleType \<Rightarrow> bool \<Rightarrow> int set" where
  "spot_ids level t occ =
     {i. \<exists>spot. Level_spots level i = Some spot \<and> Spot_vtype spot = t \<and> Spot_is_occupied spot = occ}"

definition occupied_count :: "Level \<Rightarrow> VehicleType \<Rightarrow> int" where
  "occupied_count level t = int (card (spot_ids level t True))"

text \<open>The capacity of a level for type \<open>t\<close>: the number of its spots of that type. No
  operation adds or removes a spot, so it is the number the constructor generated.\<close>

definition capacity :: "Level \<Rightarrow> VehicleType \<Rightarrow> int" where
  "capacity level t = int (card (spot_ids level t False \<union> spot_ids level t True))"

definition level_inv :: "Level \<Rightarrow> bool" where
  "level_inv level \<longleftrightarrow>
     finite (dom (Level_spots level)) \<and>
     (\<forall>i spot. Level_spots level i = Some spot \<longrightarrow>
        Spot_id spot = i \<and> (Spot_is_occupied spot \<longleftrightarrow> Spot_vehicle spot \<noteq> None)) \<and>
     (\<forall>t. Level_free_spots level t = spot_ids level t False) \<and>
     (\<forall>t. Level_free_count level t = int (card (Level_free_spots level t)))"

text \<open>The level that \<^verbatim>\<open>unpark\<close> resolves an id to: the first one in the lot's sequence.\<close>

definition lookup_level :: "state \<Rightarrow> int \<Rightarrow> ref option" where
  "lookup_level s level_id = find (\<lambda>l. Level_id (store s l) = level_id) (ParkingLot_levels (lot s))"

text \<open>The spot that a pair of a level id and a spot id denotes, through the lookup of
  \<^verbatim>\<open>unpark\<close>, is occupied.\<close>

definition occupied_at :: "state \<Rightarrow> int \<Rightarrow> int \<Rightarrow> bool" where
  "occupied_at s level_id spot_id =
     (case lookup_level s level_id of
        None \<Rightarrow> False
      | Some r \<Rightarrow>
          (case Level_spots (store s r) spot_id of
             None \<Rightarrow> False
           | Some spot \<Rightarrow> Spot_is_occupied spot))"

text \<open>No two different levels of the lot carry the same id.\<close>

definition unique_ids :: "state \<Rightarrow> bool" where
  "unique_ids s \<longleftrightarrow> inj_on (\<lambda>r. Level_id (store s r)) (set (ParkingLot_levels (lot s)))"

text \<open>The free spots of type \<open>t\<close> over the levels of the lot, each level counted once.\<close>

definition total_free :: "state \<Rightarrow> VehicleType \<Rightarrow> int" where
  "total_free s t = (\<Sum>r \<in> set (ParkingLot_levels (lot s)). Level_free_count (store s r) t)"

definition state_inv :: "state \<Rightarrow> bool" where
  "state_inv s \<longleftrightarrow> (\<forall>r. level_inv (store s r))"

text \<open>The first level of a sequence that has a free spot of type \<open>t\<close>.\<close>

definition first_free :: "(ref \<Rightarrow> Level) \<Rightarrow> ref list \<Rightarrow> VehicleType \<Rightarrow> ref option" where
  "first_free h rs t = find (\<lambda>r. Level_free_spots (h r) t \<noteq> {}) rs"

text \<open>What parking \<open>vehicle\<close> at spot \<open>i\<close> does to a level, in the words of the specification:
  the id leaves the free set of the vehicle's type, the spot is occupied and bound to the
  vehicle, the free count of the type goes down by one.\<close>

definition occupy :: "Level \<Rightarrow> int \<Rightarrow> Vehicle \<Rightarrow> Level" where
  "occupy level i vehicle =
     level\<lparr>Level_spots := (Level_spots level)
              (i \<mapsto> \<lparr>Spot_id = i, Spot_vtype = Vehicle_vtype vehicle,
                     Spot_is_occupied = True, Spot_vehicle = Some vehicle\<rparr>),
           Level_free_spots := (Level_free_spots level)
              (Vehicle_vtype vehicle := Level_free_spots level (Vehicle_vtype vehicle) - {i}),
           Level_free_count := (Level_free_count level)
              (Vehicle_vtype vehicle := Level_free_count level (Vehicle_vtype vehicle) - 1)\<rparr>"

text \<open>What releasing spot \<open>i\<close> does to a level, in the words of the specification: occupancy
  and vehicle reference are cleared, the id is inserted into the free set of the spot's
  type, the free count of that type goes up by one.\<close>

definition vacate :: "Level \<Rightarrow> int \<Rightarrow> Spot \<Rightarrow> Level" where
  "vacate level i spot =
     level\<lparr>Level_spots := (Level_spots level)
              (i \<mapsto> spot\<lparr>Spot_is_occupied := False, Spot_vehicle := None\<rparr>),
           Level_free_spots := (Level_free_spots level)
              (Spot_vtype spot := insert i (Level_free_spots level (Spot_vtype spot))),
           Level_free_count := (Level_free_count level)
              (Spot_vtype spot := Level_free_count level (Spot_vtype spot) + 1)\<rparr>"

text \<open>What no operation changes: the id of a level, and the id and type of each spot.\<close>

definition shape :: "Level \<Rightarrow> int \<times> (int \<Rightarrow> (int \<times> VehicleType) option)" where
  "shape level =
     (Level_id level, \<lambda>i. map_option (\<lambda>spot. (Spot_id spot, Spot_vtype spot)) (Level_spots level i))"

section \<open>The reference scenario\<close>

text \<open>The demo of the module: level 1 with 2 car and 2 bike spots, level 2 with 1 car and
  3 bike spots, a car and a bike.\<close>

definition demo_args :: "ref \<Rightarrow> LevelArgs" where
  "demo_args = (\<lambda>_. \<lparr>level_id_arg = 0, car_spots_arg = 0, bike_spots_arg = 0\<rparr>)
     (0 := \<lparr>level_id_arg = 1, car_spots_arg = 2, bike_spots_arg = 2\<rparr>,
      1 := \<lparr>level_id_arg = 2, car_spots_arg = 1, bike_spots_arg = 3\<rparr>)"

definition demo_lot :: state where
  "demo_lot = run (start demo_args) [AddLevel 0, AddLevel 1]"

definition car :: Vehicle where
  "car = \<lparr>Vehicle_vtype = CAR, Vehicle_reg = ''CAR123''\<rparr>"

definition bike :: Vehicle where
  "bike = \<lparr>Vehicle_vtype = BIKE, Vehicle_reg = ''BIKE456''\<rparr>"

text \<open>A lot whose two levels carry the same id: \<^verbatim>\<open>add_level\<close> does not compare ids. Each
  level has one car spot.\<close>

definition twin_args :: "ref \<Rightarrow> LevelArgs" where
  "twin_args = (\<lambda>_. \<lparr>level_id_arg = 1, car_spots_arg = 1, bike_spots_arg = 0\<rparr>)"

definition twin_lot :: state where
  "twin_lot = run (start twin_args) [AddLevel 0, AddLevel 1]"

section \<open>The constructor as the specification words it\<close>

text \<open>The specification's \<open>Construct\<close>: negative capacities are refused, otherwise the level
  has \<open>car_capacity\<close> car spots with the ids from 1 and \<open>bike_capacity\<close> bike spots with the
  ids that follow, all free.\<close>

datatype construct_error = InvalidCapacity

definition Construct_spec :: "int \<Rightarrow> int \<Rightarrow> int \<Rightarrow> construct_error + Level" where
  "Construct_spec level_id car_capacity bike_capacity =
     (if car_capacity < 0 \<or> bike_capacity < 0 then Inl InvalidCapacity
      else Inr \<lparr>Level_id = level_id,
                Level_spots = (\<lambda>i.
                  if 1 \<le> i \<and> i \<le> car_capacity then Some (Spot_init i CAR)
                  else if car_capacity + 1 \<le> i \<and> i \<le> car_capacity + bike_capacity
                    then Some (Spot_init i BIKE)
                  else None),
                Level_free_spots = (\<lambda>t. case t of CAR \<Rightarrow> {1..car_capacity}
                  | BIKE \<Rightarrow> {car_capacity + 1..car_capacity + bike_capacity}),
                Level_free_count = (\<lambda>t. case t of CAR \<Rightarrow> car_capacity | BIKE \<Rightarrow> bike_capacity)\<rparr>)"

section \<open>The constructor\<close>

lemma foldl_init_spot_id: "Level_id (foldl (init_spot t) l xs) = Level_id l"
  by (induction xs arbitrary: l) (simp_all add: init_spot_def)

lemma foldl_init_spot_spots:
  "Level_spots (foldl (init_spot t) l xs) i =
     (if i \<in> set xs then Some (Spot_init i t) else Level_spots l i)"
  by (induction xs arbitrary: l) (auto simp: init_spot_def)

lemma foldl_init_spot_free_spots:
  "Level_free_spots (foldl (init_spot t) l xs) t' =
     (if t' = t then Level_free_spots l t \<union> set xs else Level_free_spots l t')"
  by (induction xs arbitrary: l) (auto simp: init_spot_def)

lemma foldl_init_spot_free_count:
  "Level_free_count (foldl (init_spot t) l xs) t' =
     (if t' = t then Level_free_count l t + int (length xs) else Level_free_count l t')"
  by (induction xs arbitrary: l) (auto simp: init_spot_def)

lemma Level_init_id: "Level_id (Level_init lid c b) = lid"
  by (simp add: Level_init_def foldl_init_spot_id)

lemma Level_init_spots:
  "Level_spots (Level_init lid c b) i =
     (if 1 \<le> i \<and> i \<le> c then Some (Spot_init i CAR)
      else if c + 1 \<le> i \<and> i \<le> c + b then Some (Spot_init i BIKE) else None)"
  by (auto simp: Level_init_def foldl_init_spot_spots)

lemma Level_init_free_spots:
  "Level_free_spots (Level_init lid c b) t = (case t of CAR \<Rightarrow> {1..c} | BIKE \<Rightarrow> {c + 1..c + b})"
  by (auto simp: Level_init_def foldl_init_spot_free_spots split: VehicleType.splits)

lemma Level_init_free_count:
  "Level_free_count (Level_init lid c b) t = (case t of CAR \<Rightarrow> max 0 c | BIKE \<Rightarrow> max 0 b)"
  by (auto simp: Level_init_def foldl_init_spot_free_count split: VehicleType.splits)

lemma spot_ids_Level_init:
  "spot_ids (Level_init lid c b) t occ =
     (if occ then {} else case t of CAR \<Rightarrow> {1..c} | BIKE \<Rightarrow> {c + 1..c + b})"
  by (auto simp: spot_ids_def Level_init_spots Spot_init_def split: VehicleType.splits if_splits)

lemma level_inv_Level_init: "level_inv (Level_init lid c b)"
  unfolding level_inv_def
proof (intro conjI allI impI)
  have "dom (Level_spots (Level_init lid c b)) \<subseteq> {1..c} \<union> {c + 1..c + b}"
    by (auto simp: Level_init_spots split: if_splits)
  then show "finite (dom (Level_spots (Level_init lid c b)))"
    by (rule finite_subset) simp
next
  fix i spot assume "Level_spots (Level_init lid c b) i = Some spot"
  then show "Spot_id spot = i" "Spot_is_occupied spot \<longleftrightarrow> Spot_vehicle spot \<noteq> None"
    by (auto simp: Level_init_spots Spot_init_def split: if_splits)
next
  fix t show "Level_free_spots (Level_init lid c b) t = spot_ids (Level_init lid c b) t False"
    by (simp add: Level_init_free_spots spot_ids_Level_init)
next
  fix t show "Level_free_count (Level_init lid c b) t = int (card (Level_free_spots (Level_init lid c b) t))"
    by (auto simp: Level_init_free_spots Level_init_free_count split: VehicleType.splits)
qed

section \<open>Parking in a level\<close>

lemma set_pop_fst_in:
  "finite S \<Longrightarrow> S \<noteq> {} \<Longrightarrow> fst (set_pop hint S) \<in> S"
  by (simp add: set_pop_def Let_def)

lemma set_pop_snd: "snd (set_pop hint S) = S - {fst (set_pop hint S)}"
  by (simp add: set_pop_def Let_def)

lemma level_inv_finite_free: "level_inv level \<Longrightarrow> finite (Level_free_spots level t)"
proof -
  assume inv: "level_inv level"
  then have "Level_free_spots level t \<subseteq> dom (Level_spots level)"
    by (auto simp: level_inv_def spot_ids_def)
  with inv show ?thesis
    by (auto simp: level_inv_def intro: finite_subset)
qed

lemma level_inv_free_spot:
  assumes "level_inv level" "i \<in> Level_free_spots level t"
  shows "Level_spots level i =
           Some \<lparr>Spot_id = i, Spot_vtype = t, Spot_is_occupied = False, Spot_vehicle = None\<rparr>"
proof -
  from assms obtain spot where sp: "Level_spots level i = Some spot" "Spot_vtype spot = t"
      "\<not> Spot_is_occupied spot"
    by (auto simp: level_inv_def spot_ids_def)
  with assms(1) have "Spot_id spot = i" "Spot_vehicle spot = None"
    by (auto simp: level_inv_def)
  with sp show ?thesis by simp
qed

lemma park_in_occupy:
  assumes "level_inv level" "Level_free_spots level (Vehicle_vtype vehicle) \<noteq> {}"
    and "i = fst (set_pop hint (Level_free_spots level (Vehicle_vtype vehicle)))"
  shows "park_in level hint vehicle = (occupy level i vehicle, Inr (Some (Level_id level), Some i))"
proof -
  have "i \<in> Level_free_spots level (Vehicle_vtype vehicle)"
    using assms set_pop_fst_in level_inv_finite_free by simp
  from level_inv_free_spot [OF assms(1) this] show ?thesis
    using assms(3) by (simp add: park_in_def occupy_def split_beta set_pop_snd Let_def)
qed

lemma spot_ids_occupy:
  assumes "level_inv level" "i \<in> Level_free_spots level (Vehicle_vtype vehicle)"
  shows "spot_ids (occupy level i vehicle) t occ =
     (if t = Vehicle_vtype vehicle then
        (if occ then insert i (spot_ids level t True) else spot_ids level t False - {i})
      else spot_ids level t occ)"
  using level_inv_free_spot [OF assms]
  by (auto simp: spot_ids_def occupy_def)

lemma level_inv_occupy:
  assumes "level_inv level" "i \<in> Level_free_spots level (Vehicle_vtype vehicle)"
  shows "level_inv (occupy level i vehicle)"
  unfolding level_inv_def
proof (intro conjI allI impI)
  show "finite (dom (Level_spots (occupy level i vehicle)))"
    using assms(1) by (simp add: occupy_def level_inv_def)
next
  fix j spot assume "Level_spots (occupy level i vehicle) j = Some spot"
  then show "Spot_id spot = j" "Spot_is_occupied spot \<longleftrightarrow> Spot_vehicle spot \<noteq> None"
    using assms(1) by (auto simp: occupy_def level_inv_def split: if_splits)
next
  fix t show "Level_free_spots (occupy level i vehicle) t = spot_ids (occupy level i vehicle) t False"
    using assms(1) by (simp add: spot_ids_occupy [OF assms]) (simp add: occupy_def level_inv_def)
next
  fix t
  have "finite (Level_free_spots level (Vehicle_vtype vehicle))"
    by (rule level_inv_finite_free [OF assms(1)])
  then have "0 < card (Level_free_spots level (Vehicle_vtype vehicle))"
    using assms(2) by (auto simp: card_gt_0_iff)
  then have "int (card (Level_free_spots level (Vehicle_vtype vehicle) - {i}))
      = int (card (Level_free_spots level (Vehicle_vtype vehicle))) - 1"
    using assms(2) by (simp add: card_Diff_singleton)
  then show "Level_free_count (occupy level i vehicle) t = int (card (Level_free_spots (occupy level i vehicle) t))"
    using assms(1) by (simp add: occupy_def level_inv_def)
qed

lemma shape_occupy:
  assumes "level_inv level" "i \<in> Level_free_spots level (Vehicle_vtype vehicle)"
  shows "shape (occupy level i vehicle) = shape level"
  using level_inv_free_spot [OF assms] by (auto simp: shape_def occupy_def)

section \<open>The loop of park\<close>

lemma park_loop_first_free:
  "park_loop h rs hint vehicle =
     (case first_free h rs (Vehicle_vtype vehicle) of
        None \<Rightarrow> (h, Inr (None, None))
      | Some r \<Rightarrow> (h(r := fst (park_in (h r) hint vehicle)), snd (park_in (h r) hint vehicle)))"
  by (induction rs) (simp_all add: first_free_def split_beta)

lemma first_free_Some:
  "first_free h rs t = Some r \<Longrightarrow> r \<in> set rs \<and> Level_free_spots (h r) t \<noteq> {}"
  by (auto simp: first_free_def find_Some_iff)

lemma first_free_None:
  "first_free h rs t = None \<longleftrightarrow> (\<forall>r \<in> set rs. Level_free_spots (h r) t = {})"
  by (auto simp: first_free_def find_None_iff)

lemma first_free_append:
  assumes "\<forall>r' \<in> set pre. Level_free_spots (h r') t = {}" "Level_free_spots (h r) t \<noteq> {}"
  shows "first_free h (pre @ r # post) t = Some r"
  using assms by (induction pre) (simp_all add: first_free_def)

lemma park_none:
  assumes "first_free (store s) (ParkingLot_levels (lot s)) (Vehicle_vtype vehicle) = None"
  shows "park s hint vehicle = (s, Inr (None, None))"
  using assms by (simp add: park_def park_loop_first_free)

lemma park_some:
  assumes "state_inv s"
    and "first_free (store s) (ParkingLot_levels (lot s)) (Vehicle_vtype vehicle) = Some r"
    and "i = fst (set_pop hint (Level_free_spots (store s r) (Vehicle_vtype vehicle)))"
  shows "park s hint vehicle =
           (s\<lparr>store := (store s)(r := occupy (store s r) i vehicle)\<rparr>,
            Inr (Some (Level_id (store s r)), Some i))"
    and "i \<in> Level_free_spots (store s r) (Vehicle_vtype vehicle)"
proof -
  have inv: "level_inv (store s r)" using assms(1) by (simp add: state_inv_def)
  have ne: "Level_free_spots (store s r) (Vehicle_vtype vehicle) \<noteq> {}"
    using first_free_Some [OF assms(2)] by simp
  show "i \<in> Level_free_spots (store s r) (Vehicle_vtype vehicle)"
    using assms(3) set_pop_fst_in [OF level_inv_finite_free [OF inv] ne] by simp
  show "park s hint vehicle =
           (s\<lparr>store := (store s)(r := occupy (store s r) i vehicle)\<rparr>,
            Inr (Some (Level_id (store s r)), Some i))"
    using assms(2) by (simp add: park_def park_loop_first_free park_in_occupy [OF inv ne assms(3)])
qed

lemma park_cases:
  assumes "state_inv s"
  obtains (none) "first_free (store s) (ParkingLot_levels (lot s)) (Vehicle_vtype vehicle) = None"
      "park s hint vehicle = (s, Inr (None, None))"
  | (some) r i where
      "first_free (store s) (ParkingLot_levels (lot s)) (Vehicle_vtype vehicle) = Some r"
      "i \<in> Level_free_spots (store s r) (Vehicle_vtype vehicle)"
      "park s hint vehicle =
           (s\<lparr>store := (store s)(r := occupy (store s r) i vehicle)\<rparr>,
            Inr (Some (Level_id (store s r)), Some i))"
proof (cases "first_free (store s) (ParkingLot_levels (lot s)) (Vehicle_vtype vehicle)")
  case None
  then show ?thesis using park_none none by simp
next
  case (Some r)
  then show ?thesis using park_some [OF assms Some refl] some by blast
qed

lemma state_inv_park:
  assumes "state_inv s"
  shows "state_inv (fst (park s hint vehicle))"
  using assms
proof (cases rule: park_cases [where vehicle = vehicle and hint = hint])
  case none
  then show ?thesis using assms by simp
next
  case (some r i)
  then show ?thesis using assms
    by (simp add: state_inv_def level_inv_occupy)
qed

lemma lot_park: "lot (fst (park s hint vehicle)) = lot s"
  by (simp add: park_def split_beta)

lemma shape_park:
  assumes "state_inv s"
  shows "shape (store (fst (park s hint vehicle)) r) = shape (store s r)"
  using assms
proof (cases rule: park_cases [where vehicle = vehicle and hint = hint])
  case none
  then show ?thesis by simp
next
  case (some r' i)
  then show ?thesis using assms
    by (simp add: state_inv_def shape_occupy)
qed

section \<open>Unparking, reporting, and runs\<close>

lemma unpark_eq:
  "unpark s level_id spot_id =
     (case lookup_level s level_id of
        None \<Rightarrow> (s, Inl UnknownLevel)
      | Some r \<Rightarrow>
          (case Level_spots (store s r) spot_id of
             None \<Rightarrow> (s, Inl UnknownSpot)
           | Some spot \<Rightarrow>
               if Spot_is_occupied spot
               then (s\<lparr>store := (store s)(r := vacate (store s r) spot_id spot)\<rparr>, Inr ())
               else (s, Inl AlreadyFree)))"
  by (simp add: unpark_def lookup_level_def UnknownLevel_def UnknownSpot_def AlreadyFree_def
      vacate_def Let_def split: option.splits)

lemma spot_ids_vacate:
  assumes "Level_spots level i = Some spot" "Spot_is_occupied spot"
  shows "spot_ids (vacate level i spot) t occ =
     (if t = Spot_vtype spot then
        (if occ then spot_ids level t True - {i} else insert i (spot_ids level t False))
      else spot_ids level t occ)"
  using assms by (auto simp: spot_ids_def vacate_def)

lemma level_inv_vacate:
  assumes "level_inv level" "Level_spots level i = Some spot" "Spot_is_occupied spot"
  shows "level_inv (vacate level i spot)"
  unfolding level_inv_def
proof (intro conjI allI impI)
  show "finite (dom (Level_spots (vacate level i spot)))"
    using assms(1) by (simp add: vacate_def level_inv_def)
next
  fix j sp assume "Level_spots (vacate level i spot) j = Some sp"
  then show "Spot_id sp = j" "Spot_is_occupied sp \<longleftrightarrow> Spot_vehicle sp \<noteq> None"
    using assms(1,2) by (auto simp: vacate_def level_inv_def split: if_splits)
next
  fix t show "Level_free_spots (vacate level i spot) t = spot_ids (vacate level i spot) t False"
    using assms(1) by (simp add: spot_ids_vacate [OF assms(2,3)]) (simp add: vacate_def level_inv_def)
next
  fix t
  have "i \<notin> Level_free_spots level (Spot_vtype spot)"
    using assms by (auto simp: level_inv_def spot_ids_def)
  then have "int (card (insert i (Level_free_spots level (Spot_vtype spot))))
      = int (card (Level_free_spots level (Spot_vtype spot))) + 1"
    using level_inv_finite_free [OF assms(1)] by simp
  then show "Level_free_count (vacate level i spot) t = int (card (Level_free_spots (vacate level i spot) t))"
    using assms(1) by (simp add: vacate_def level_inv_def)
qed

lemma shape_vacate:
  assumes "Level_spots level i = Some spot"
  shows "shape (vacate level i spot) = shape level"
  using assms by (auto simp: shape_def vacate_def)

lemma state_inv_unpark:
  assumes "state_inv s"
  shows "state_inv (fst (unpark s level_id spot_id))"
  using assms
  by (auto simp: unpark_eq state_inv_def level_inv_vacate split: option.splits)

lemma lot_unpark: "lot (fst (unpark s level_id spot_id)) = lot s"
  by (simp add: unpark_eq split: option.splits)

lemma shape_unpark: "shape (store (fst (unpark s level_id spot_id)) r) = shape (store s r)"
  by (simp add: unpark_eq shape_vacate split: option.splits)

lemma display_loop_store: "fst (display_loop h rs out) = h"
  by (induction rs arbitrary: out) simp_all

lemma display_availability_state: "fst (display_availability s) = s"
  by (simp add: display_availability_def split_beta display_loop_store)

lemma state_inv_exec_op: "state_inv s \<Longrightarrow> state_inv (fst (exec_op s x))"
  by (cases x)
     (simp_all add: split_beta state_inv_park state_inv_unpark display_availability_state,
      simp add: state_inv_def)

lemma shape_exec_op: "state_inv s \<Longrightarrow> shape (store (fst (exec_op s x)) r) = shape (store s r)"
  by (cases x) (simp_all add: split_beta shape_park shape_unpark display_availability_state)

lemma state_inv_run: "state_inv s \<Longrightarrow> state_inv (run s xs)"
  by (induction xs arbitrary: s) (simp_all add: state_inv_exec_op)

lemma shape_run: "state_inv s \<Longrightarrow> shape (store (run s xs) r) = shape (store s r)"
  by (induction xs arbitrary: s) (simp_all add: state_inv_exec_op shape_exec_op)

lemma state_inv_start: "state_inv (start args)"
  by (simp add: state_inv_def start_def new_level_def level_inv_Level_init)

lemma state_inv_reachable: "state_inv (run (start args) xs)"
  by (simp add: state_inv_run state_inv_start)

lemma run_append: "run s (xs @ ys) = run (run s xs) ys"
  by (induction xs arbitrary: s) simp_all

section \<open>Lookup of a level by id\<close>

lemma lookup_level_None:
  "lookup_level s level_id = None \<longleftrightarrow>
     (\<forall>r \<in> set (ParkingLot_levels (lot s)). Level_id (store s r) \<noteq> level_id)"
  by (auto simp: lookup_level_def find_None_iff)

lemma lookup_level_Some:
  "lookup_level s level_id = Some r \<longleftrightarrow>
     (\<exists>pre post. ParkingLot_levels (lot s) = pre @ r # post \<and>
        (\<forall>r' \<in> set pre. Level_id (store s r') \<noteq> level_id) \<and> Level_id (store s r) = level_id)"
proof -
  have "find P xs = Some r \<longleftrightarrow> (\<exists>pre post. xs = pre @ r # post \<and> (\<forall>x \<in> set pre. \<not> P x) \<and> P r)"
    for P :: "ref \<Rightarrow> bool" and xs
  proof (induction xs)
    case Nil
    then show ?case by simp
  next
    case (Cons x xs)
    show ?case
    proof (cases "P x")
      case True
      have "\<exists>pre post. x # xs = pre @ x # post \<and> (\<forall>y \<in> set pre. \<not> P y) \<and> P x"
        using True by (intro exI [of _ "[]"] exI [of _ xs]) simp
      moreover have "r = x"
        if "x # xs = pre @ r # post" "\<forall>y \<in> set pre. \<not> P y" for pre post
        using that True by (cases pre) auto
      ultimately show ?thesis using True by auto
    next
      case False
      have "(\<exists>pre post. x # xs = pre @ r # post \<and> (\<forall>y \<in> set pre. \<not> P y) \<and> P r)
          \<longleftrightarrow> (\<exists>pre post. xs = pre @ r # post \<and> (\<forall>y \<in> set pre. \<not> P y) \<and> P r)"
        (is "?L \<longleftrightarrow> ?R")
      proof
        assume ?L
        then obtain pre post where h: "x # xs = pre @ r # post" "\<forall>y \<in> set pre. \<not> P y" "P r"
          by blast
        with False obtain pre' where "pre = x # pre'" by (cases pre) auto
        with h show ?R by auto
      next
        assume ?R
        then obtain pre post where h: "xs = pre @ r # post" "\<forall>y \<in> set pre. \<not> P y" "P r"
          by blast
        then have "x # xs = (x # pre) @ r # post \<and> (\<forall>y \<in> set (x # pre). \<not> P y) \<and> P r"
          using False by simp
        then show ?L by blast
      qed
      with False Cons show ?thesis by simp
    qed
  qed
  then show ?thesis by (simp add: lookup_level_def)
qed

lemma lookup_level_unique:
  assumes "unique_ids s" "r \<in> set (ParkingLot_levels (lot s))" "Level_id (store s r) = level_id"
  shows "lookup_level s level_id = Some r"
proof (cases "lookup_level s level_id")
  case None
  with assms show ?thesis by (simp add: lookup_level_None)
next
  case (Some r')
  then have "r' \<in> set (ParkingLot_levels (lot s))" "Level_id (store s r') = level_id"
    by (auto simp: lookup_level_Some)
  with assms have "r' = r" by (auto simp: unique_ids_def inj_on_def)
  with Some show ?thesis by simp
qed

lemma lookup_level_same_ids:
  assumes "lot s' = lot s" "\<And>r. Level_id (store s' r) = Level_id (store s r)"
  shows "lookup_level s' level_id = lookup_level s level_id"
  using assms by (simp add: lookup_level_def)

lemma unpark_twice:
  assumes "snd (unpark s level_id spot_id) = Inr ()"
  shows "snd (unpark (fst (unpark s level_id spot_id)) level_id spot_id) = Inl AlreadyFree"
proof -
  from assms obtain r spot where h: "lookup_level s level_id = Some r"
      "Level_spots (store s r) spot_id = Some spot" "Spot_is_occupied spot"
    by (auto simp: unpark_eq split: option.splits if_splits)
  let ?s' = "s\<lparr>store := (store s)(r := vacate (store s r) spot_id spot)\<rparr>"
  have s': "fst (unpark s level_id spot_id) = ?s'"
    using h by (simp add: unpark_eq)
  have "lookup_level ?s' level_id = lookup_level s level_id"
    by (rule lookup_level_same_ids) (simp_all add: vacate_def)
  then show ?thesis
    using h unfolding s' by (simp add: unpark_eq vacate_def)
qed

section \<open>Parking and unparking again\<close>

lemma Level_id_occupy: "Level_id (occupy level i vehicle) = Level_id level"
  by (simp add: occupy_def)

lemma vacate_occupy:
  assumes "level_inv level" "i \<in> Level_free_spots level (Vehicle_vtype vehicle)"
  shows "vacate (occupy level i vehicle) i
           \<lparr>Spot_id = i, Spot_vtype = Vehicle_vtype vehicle,
            Spot_is_occupied = True, Spot_vehicle = Some vehicle\<rparr> = level"
proof -
  have spot: "Level_spots level i =
      Some \<lparr>Spot_id = i, Spot_vtype = Vehicle_vtype vehicle, Spot_is_occupied = False, Spot_vehicle = None\<rparr>"
    by (rule level_inv_free_spot [OF assms])
  have "insert i (Level_free_spots level (Vehicle_vtype vehicle) - {i})
      = Level_free_spots level (Vehicle_vtype vehicle)"
    using assms(2) by auto
  then show ?thesis
    using spot by (simp add: vacate_def occupy_def fun_upd_idem)
qed

lemma park_unpark:
  assumes "state_inv s" "unique_ids s"
    and "park s hint vehicle = (s', Inr (Some level_id, Some spot_id))"
  shows "unpark s' level_id spot_id = (s, Inr ())"
  using assms(1)
proof (cases rule: park_cases [where vehicle = vehicle and hint = hint])
  case none
  with assms(3) show ?thesis by simp
next
  case (some r i)
  with assms(3) have s': "s' = s\<lparr>store := (store s)(r := occupy (store s r) i vehicle)\<rparr>"
    and ids: "level_id = Level_id (store s r)" "spot_id = i"
    by auto
  have inv: "level_inv (store s r)" using assms(1) by (simp add: state_inv_def)
  have "r \<in> set (ParkingLot_levels (lot s))"
    using first_free_Some [OF some(1)] by simp
  then have "lookup_level s level_id = Some r"
    using assms(2) ids(1) by (intro lookup_level_unique) simp_all
  moreover have "lookup_level s' level_id = lookup_level s level_id"
    by (rule lookup_level_same_ids) (simp_all add: s' Level_id_occupy)
  ultimately have look: "lookup_level s' level_id = Some r" by simp
  have spot: "Level_spots (store s' r) spot_id =
      Some \<lparr>Spot_id = i, Spot_vtype = Vehicle_vtype vehicle,
            Spot_is_occupied = True, Spot_vehicle = Some vehicle\<rparr>"
    by (simp add: s' ids occupy_def)
  have "store s' r = occupy (store s r) i vehicle" by (simp add: s')
  then show ?thesis
    using look spot vacate_occupy [OF inv some(2)]
    by (simp add: unpark_eq ids s')
qed

section \<open>The properties of the specification\<close>

lemma demo_lot_run: "run demo_lot xs = run (start demo_args) ([AddLevel 0, AddLevel 1] @ xs)"
  unfolding demo_lot_def by (rule run_append [symmetric])

text \<open>
  C1. In every state that a program reaches, every level \<open>r\<close> and every vehicle type \<open>t\<close>
  satisfy: the free count of \<open>t\<close> is the number of elements of the free set of \<open>t\<close>, and the
  free set of \<open>t\<close> is exactly the set of the ids of the level's spots of type \<open>t\<close> that are not
  occupied.
\<close>

theorem C1_free_sets:
  "Level_free_count (store (run (start args) xs) r) t =
     int (card (Level_free_spots (store (run (start args) xs) r) t)) \<and>
   Level_free_spots (store (run (start args) xs) r) t =
     {i. \<exists>spot. Level_spots (store (run (start args) xs) r) i = Some spot \<and>
           Spot_vtype spot = t \<and> \<not> Spot_is_occupied spot}"
proof -
  have "level_inv (store (run (start args) xs) r)"
    using state_inv_reachable [of args xs] by (simp add: state_inv_def)
  then show ?thesis
    by (simp add: level_inv_def spot_ids_def)
qed

theorem C1_free_sets_witness:
  "Level_free_spots (store (run demo_lot [Park 2 car]) 0) CAR = {1} \<and>
   Level_free_count (store (run demo_lot [Park 2 car]) 0) CAR = 1 \<and>
   {i. \<exists>spot. Level_spots (store (run demo_lot [Park 2 car]) 0) i = Some spot \<and>
         Spot_vtype spot = CAR \<and> \<not> Spot_is_occupied spot} = {1}"
proof -
  have free: "Level_free_spots (store (run demo_lot [Park 2 car]) 0) CAR = {1}"
    by code_simp
  show ?thesis
    using C1_free_sets [of demo_args "[AddLevel 0, AddLevel 1] @ [Park 2 car]" 0 CAR,
        folded demo_lot_run] free
    by (simp del: run.simps)
qed

lemma typed_ids_shape:
  "spot_ids level t False \<union> spot_ids level t True = {i. \<exists>j. snd (shape level) i = Some (j, t)}"
  by (auto simp: spot_ids_def shape_def)

lemma capacity_shape: "shape level = shape level' \<Longrightarrow> capacity level t = capacity level' t"
  by (simp add: capacity_def typed_ids_shape)

lemma capacity_split:
  assumes "level_inv level"
  shows "Level_free_count level t + occupied_count level t = capacity level t"
proof -
  have sub: "spot_ids level t occ \<subseteq> dom (Level_spots level)" for occ
    by (auto simp: spot_ids_def)
  have fin: "finite (spot_ids level t occ)" for occ
    using assms sub [of occ] by (auto simp: level_inv_def intro: finite_subset)
  have disj: "spot_ids level t False \<inter> spot_ids level t True = {}"
    by (auto simp: spot_ids_def)
  have "card (spot_ids level t False \<union> spot_ids level t True)
      = card (spot_ids level t False) + card (spot_ids level t True)"
    by (rule card_Un_disjoint [OF fin fin disj])
  moreover have "Level_free_count level t = int (card (spot_ids level t False))"
    using assms by (simp add: level_inv_def)
  ultimately show ?thesis
    by (simp add: capacity_def occupied_count_def)
qed

lemma capacity_Level_init:
  "capacity (Level_init lid c b) t = (case t of CAR \<Rightarrow> max 0 c | BIKE \<Rightarrow> max 0 b)"
  by (auto simp: capacity_def spot_ids_Level_init split: VehicleType.splits)

lemma store_start: "store (start args) r = new_level (args r)"
  by (simp add: start_def)

text \<open>
  C7. In every state that a program reaches, for every level and each vehicle type, the free
  count of the type plus the number of occupied spots of the type is the capacity of the
  level as constructed, that is the number of spots of the type that the constructor
  generated: \<open>car_spots\<close> for cars and \<open>bike_spots\<close> for bikes (none when the argument is
  negative, the range being empty).
\<close>

theorem C7_capacity:
  "Level_free_count (store (run (start args) xs) r) t + occupied_count (store (run (start args) xs) r) t
     = capacity (new_level (args r)) t \<and>
   capacity (new_level (args r)) CAR = max 0 (car_spots_arg (args r)) \<and>
   capacity (new_level (args r)) BIKE = max 0 (bike_spots_arg (args r))"
proof -
  have inv: "level_inv (store (run (start args) xs) r)"
    using state_inv_reachable [of args xs] by (simp add: state_inv_def)
  have "shape (store (run (start args) xs) r) = shape (new_level (args r))"
    using shape_run [OF state_inv_start, of args xs r] by (simp add: store_start)
  then have "capacity (store (run (start args) xs) r) t = capacity (new_level (args r)) t"
    by (rule capacity_shape)
  with capacity_split [OF inv, of t] show ?thesis
    by (simp add: new_level_def capacity_Level_init)
qed

theorem C7_capacity_witness:
  "Level_free_count (store (run demo_lot [Park 2 car, Park 3 bike, Unpark 1 2]) 0) BIKE = 1 \<and>
   occupied_count (store (run demo_lot [Park 2 car, Park 3 bike, Unpark 1 2]) 0) BIKE = 1 \<and>
   capacity (new_level (demo_args 0)) BIKE = 2"
proof -
  have free: "Level_free_count (store (run demo_lot [Park 2 car, Park 3 bike, Unpark 1 2]) 0) BIKE = 1"
    by code_simp
  have args: "bike_spots_arg (demo_args 0) = 2"
    by (simp add: demo_args_def)
  show ?thesis
    using C7_capacity [of demo_args "[AddLevel 0, AddLevel 1] @ [Park 2 car, Park 3 bike, Unpark 1 2]" 0 BIKE,
        folded demo_lot_run] free args
    by (simp del: run.simps)
qed

text \<open>
  C9. \<^verbatim>\<open>display_availability\<close> changes nothing: in every state, and so in every state that a
  program reaches, the state after the call is the state before it, with every level's
  spots, free sets and free counts.
\<close>

theorem C9_display_read_only:
  "fst (display_availability s) = s \<and>
   fst (exec_op (run (start args) xs) Display) = run (start args) xs"
  by (simp add: display_availability_def split_beta display_loop_store)

theorem C9_display_read_only_witness:
  "fst (display_availability demo_lot) = demo_lot \<and>
   snd (display_availability demo_lot) =
     [''----- Parking Availability -----'', ''Level 1: CAR=2, BIKE=2'',
      ''Level 2: CAR=1, BIKE=3'', ''--------------------------------'']"
proof -
  have "snd (display_availability demo_lot) =
     [''----- Parking Availability -----'', ''Level 1: CAR=2, BIKE=2'',
      ''Level 2: CAR=1, BIKE=3'', ''--------------------------------'']"
    by code_simp
  then show ?thesis
    using C9_display_read_only [of demo_lot] by simp
qed

text \<open>
  C8. Whenever \<^verbatim>\<open>unpark\<close> raises (unknown level, unknown spot or spot already free), the
  state after the call is the state before it: no spot, free set or free count has changed.
\<close>

theorem C8_unpark_failure_keeps_state:
  "snd (unpark s level_id spot_id) = Inl e \<Longrightarrow>
     fst (unpark s level_id spot_id) = s \<and> (e = UnknownLevel \<or> e = UnknownSpot \<or> e = AlreadyFree)"
  by (auto simp: unpark_eq split: option.splits if_splits)

theorem C8_unpark_failure_keeps_state_witness:
  "snd (unpark demo_lot 1 2) = Inl AlreadyFree \<and> fst (unpark demo_lot 1 2) = demo_lot \<and>
   snd (unpark demo_lot 1 7) = Inl UnknownSpot \<and> fst (unpark demo_lot 1 7) = demo_lot \<and>
   snd (unpark demo_lot 3 1) = Inl UnknownLevel \<and> fst (unpark demo_lot 3 1) = demo_lot"
proof -
  have a: "snd (unpark demo_lot 1 2) = Inl AlreadyFree"
    and b: "snd (unpark demo_lot 1 7) = Inl UnknownSpot"
    and c: "snd (unpark demo_lot 3 1) = Inl UnknownLevel"
    by code_simp+
  show ?thesis
    using a b c C8_unpark_failure_keeps_state [OF a] C8_unpark_failure_keeps_state [OF b]
      C8_unpark_failure_keeps_state [OF c]
    by simp
qed

lemma Level_init_eq:
  "Level_init level_id car_spots bike_spots =
     \<lparr>Level_id = level_id,
      Level_spots = (\<lambda>i.
        if 1 \<le> i \<and> i \<le> car_spots then Some (Spot_init i CAR)
        else if car_spots + 1 \<le> i \<and> i \<le> car_spots + bike_spots then Some (Spot_init i BIKE)
        else None),
      Level_free_spots = (\<lambda>t. case t of CAR \<Rightarrow> {1..car_spots}
        | BIKE \<Rightarrow> {car_spots + 1..car_spots + bike_spots}),
      Level_free_count = (\<lambda>t. case t of CAR \<Rightarrow> max 0 car_spots | BIKE \<Rightarrow> max 0 bike_spots)\<rparr>"
proof (rule Level.equality)
  show "Level_spots (Level_init level_id car_spots bike_spots) = Level_spots \<lparr>Level_id = level_id,
      Level_spots = (\<lambda>i.
        if 1 \<le> i \<and> i \<le> car_spots then Some (Spot_init i CAR)
        else if car_spots + 1 \<le> i \<and> i \<le> car_spots + bike_spots then Some (Spot_init i BIKE)
        else None),
      Level_free_spots = (\<lambda>t. case t of CAR \<Rightarrow> {1..car_spots}
        | BIKE \<Rightarrow> {car_spots + 1..car_spots + bike_spots}),
      Level_free_count = (\<lambda>t. case t of CAR \<Rightarrow> max 0 car_spots | BIKE \<Rightarrow> max 0 bike_spots)\<rparr>"
    by (rule ext) (simp add: Level_init_spots)
qed (simp_all add: Level_init_id fun_eq_iff Level_init_free_spots Level_init_free_count)

text \<open>
  C10 (amended). Constructing a level never fails, whatever the capacities: it generates
  car spots with the ids \<open>1..car_spots\<close> and bike spots with the ids
  \<open>car_spots + 1..car_spots + bike_spots\<close>, all free and without a vehicle, a range without
  elements giving no spot. For capacities that are not negative this is the level of the
  specification's \<open>Construct\<close>, with \<open>car_spots\<close> car spots and \<open>bike_spots\<close> bike spots.
\<close>

theorem C10_construct:
  "Level_init level_id car_spots bike_spots =
     \<lparr>Level_id = level_id,
      Level_spots = (\<lambda>i.
        if 1 \<le> i \<and> i \<le> car_spots then
          Some \<lparr>Spot_id = i, Spot_vtype = CAR, Spot_is_occupied = False, Spot_vehicle = None\<rparr>
        else if car_spots + 1 \<le> i \<and> i \<le> car_spots + bike_spots then
          Some \<lparr>Spot_id = i, Spot_vtype = BIKE, Spot_is_occupied = False, Spot_vehicle = None\<rparr>
        else None),
      Level_free_spots = (\<lambda>t. case t of CAR \<Rightarrow> {1..car_spots}
        | BIKE \<Rightarrow> {car_spots + 1..car_spots + bike_spots}),
      Level_free_count = (\<lambda>t. case t of CAR \<Rightarrow> max 0 car_spots | BIKE \<Rightarrow> max 0 bike_spots)\<rparr> \<and>
   (0 \<le> car_spots \<and> 0 \<le> bike_spots \<longrightarrow>
      Construct_spec level_id car_spots bike_spots = Inr (Level_init level_id car_spots bike_spots) \<and>
      int (card {1..car_spots}) = car_spots \<and>
      int (card {car_spots + 1..car_spots + bike_spots}) = bike_spots)"
proof -
  have "max 0 car_spots = car_spots" "max 0 bike_spots = bike_spots"
    if "0 \<le> car_spots \<and> 0 \<le> bike_spots"
    using that by simp_all
  then show ?thesis
    unfolding Level_init_eq Construct_spec_def Spot_init_def by simp
qed

theorem C10_construct_witness:
  "Construct_spec 1 2 2 = Inr (Level_init 1 2 2) \<and>
   Level_free_spots (Level_init 1 2 2) BIKE = {3, 4} \<and>
   Level_free_count (Level_init 1 2 2) BIKE = 2"
proof -
  have "Level_free_spots (Level_init 1 2 2) BIKE = {3, 4}"
    "Level_free_count (Level_init 1 2 2) BIKE = 2"
    by code_simp+
  then show ?thesis
    using C10_construct [of 1 2 2] by simp
qed

theorem C10_negative_capacity_counterexample:
  "Construct_spec 1 (- 1) 2 = Inl InvalidCapacity \<and>
   Level_free_spots (Level_init 1 (- 1) 2) BIKE = {0, 1} \<and>
   Level_free_count (Level_init 1 (- 1) 2) BIKE = 2 \<and>
   Level_free_spots (Level_init 1 (- 1) 2) CAR = {} \<and>
   Level_free_count (Level_init 1 (- 1) 2) CAR = 0 \<and>
   Level_spots (Level_init 1 (- 1) 2) 0 =
     Some \<lparr>Spot_id = 0, Spot_vtype = BIKE, Spot_is_occupied = False, Spot_vehicle = None\<rparr>"
proof -
  have "{0..1} = {0, 1::int}" by auto
  then show ?thesis
    by (simp add: Construct_spec_def Level_init_free_spots Level_init_free_count Level_init_spots
        Spot_init_def)
qed

text \<open>
  C6 (amended). \<^verbatim>\<open>unpark(level_id, spot_id)\<close> succeeds if and only if the first level of the
  lot's sequence with the given id has \<open>spot_id\<close> in its spot mapping and that spot is
  occupied; when no two levels of the lot share an id, that is: if and only if some level
  of the lot has the id, contains the spot id, and the spot is occupied. It fails with
  \<open>UnknownLevel\<close> when no level has the id, with \<open>UnknownSpot\<close> when that first level has
  not the spot id, and with \<open>AlreadyFree\<close> when the spot is not occupied, three different
  errors; so after a successful \<^verbatim>\<open>unpark\<close> the same call again fails with \<open>AlreadyFree\<close>. On
  success the spot's occupancy and vehicle reference are cleared, the spot id is inserted
  into the free set of the spot's type, and the free count of that type goes up by one.
\<close>

theorem C6_unpark_outcomes:
  "(lookup_level s level_id = None \<longleftrightarrow>
      (\<forall>r \<in> set (ParkingLot_levels (lot s)). Level_id (store s r) \<noteq> level_id)) \<and>
   (\<forall>r. lookup_level s level_id = Some r \<longleftrightarrow>
      (\<exists>pre post. ParkingLot_levels (lot s) = pre @ r # post \<and>
         (\<forall>r' \<in> set pre. Level_id (store s r') \<noteq> level_id) \<and> Level_id (store s r) = level_id)) \<and>
   (snd (unpark s level_id spot_id) = Inr () \<longleftrightarrow>
      (\<exists>r spot. lookup_level s level_id = Some r \<and>
         Level_spots (store s r) spot_id = Some spot \<and> Spot_is_occupied spot)) \<and>
   (unique_ids s \<longrightarrow>
      (snd (unpark s level_id spot_id) = Inr () \<longleftrightarrow>
         (\<exists>r \<in> set (ParkingLot_levels (lot s)). \<exists>spot. Level_id (store s r) = level_id \<and>
            Level_spots (store s r) spot_id = Some spot \<and> Spot_is_occupied spot))) \<and>
   (lookup_level s level_id = None \<longrightarrow> unpark s level_id spot_id = (s, Inl UnknownLevel)) \<and>
   (\<forall>r. lookup_level s level_id = Some r \<and> Level_spots (store s r) spot_id = None \<longrightarrow>
      unpark s level_id spot_id = (s, Inl UnknownSpot)) \<and>
   (\<forall>r spot. lookup_level s level_id = Some r \<and> Level_spots (store s r) spot_id = Some spot \<and>
        \<not> Spot_is_occupied spot \<longrightarrow>
      unpark s level_id spot_id = (s, Inl AlreadyFree)) \<and>
   (\<forall>r spot. lookup_level s level_id = Some r \<and> Level_spots (store s r) spot_id = Some spot \<and>
        Spot_is_occupied spot \<longrightarrow>
      unpark s level_id spot_id =
        (s\<lparr>store := (store s)(r := vacate (store s r) spot_id spot)\<rparr>, Inr ())) \<and>
   (snd (unpark s level_id spot_id) = Inr () \<longrightarrow>
      snd (unpark (fst (unpark s level_id spot_id)) level_id spot_id) = Inl AlreadyFree) \<and>
   UnknownLevel \<noteq> UnknownSpot \<and> UnknownLevel \<noteq> AlreadyFree \<and> UnknownSpot \<noteq> AlreadyFree"
proof -
  have ok: "snd (unpark s level_id spot_id) = Inr () \<longleftrightarrow>
      (\<exists>r spot. lookup_level s level_id = Some r \<and>
         Level_spots (store s r) spot_id = Some spot \<and> Spot_is_occupied spot)"
    by (auto simp: unpark_eq split: option.splits)
  have uniq: "snd (unpark s level_id spot_id) = Inr () \<longleftrightarrow>
         (\<exists>r \<in> set (ParkingLot_levels (lot s)). \<exists>spot. Level_id (store s r) = level_id \<and>
            Level_spots (store s r) spot_id = Some spot \<and> Spot_is_occupied spot)"
    if u: "unique_ids s"
  proof
    assume "snd (unpark s level_id spot_id) = Inr ()"
    then obtain r spot where "lookup_level s level_id = Some r"
        "Level_spots (store s r) spot_id = Some spot" "Spot_is_occupied spot"
      using ok by blast
    moreover from this have "r \<in> set (ParkingLot_levels (lot s))" "Level_id (store s r) = level_id"
      by (auto simp: lookup_level_Some)
    ultimately show "\<exists>r \<in> set (ParkingLot_levels (lot s)). \<exists>spot. Level_id (store s r) = level_id \<and>
            Level_spots (store s r) spot_id = Some spot \<and> Spot_is_occupied spot"
      by blast
  next
    assume "\<exists>r \<in> set (ParkingLot_levels (lot s)). \<exists>spot. Level_id (store s r) = level_id \<and>
            Level_spots (store s r) spot_id = Some spot \<and> Spot_is_occupied spot"
    then obtain r spot where h: "r \<in> set (ParkingLot_levels (lot s))" "Level_id (store s r) = level_id"
        "Level_spots (store s r) spot_id = Some spot" "Spot_is_occupied spot"
      by blast
    from lookup_level_unique [OF u h(1,2)] h(3,4) show "snd (unpark s level_id spot_id) = Inr ()"
      using ok by blast
  qed
  have errs: "UnknownLevel \<noteq> UnknownSpot \<and> UnknownLevel \<noteq> AlreadyFree \<and> UnknownSpot \<noteq> AlreadyFree"
    by (simp add: UnknownLevel_def UnknownSpot_def AlreadyFree_def)
  have cases: "(lookup_level s level_id = None \<longrightarrow> unpark s level_id spot_id = (s, Inl UnknownLevel)) \<and>
   (\<forall>r. lookup_level s level_id = Some r \<and> Level_spots (store s r) spot_id = None \<longrightarrow>
      unpark s level_id spot_id = (s, Inl UnknownSpot)) \<and>
   (\<forall>r spot. lookup_level s level_id = Some r \<and> Level_spots (store s r) spot_id = Some spot \<and>
        \<not> Spot_is_occupied spot \<longrightarrow>
      unpark s level_id spot_id = (s, Inl AlreadyFree)) \<and>
   (\<forall>r spot. lookup_level s level_id = Some r \<and> Level_spots (store s r) spot_id = Some spot \<and>
        Spot_is_occupied spot \<longrightarrow>
      unpark s level_id spot_id =
        (s\<lparr>store := (store s)(r := vacate (store s r) spot_id spot)\<rparr>, Inr ()))"
    by (simp add: unpark_eq)
  show ?thesis
    using lookup_level_None [of s level_id] lookup_level_Some [of s level_id] ok uniq errs cases
      unpark_twice [of s level_id spot_id]
    by blast
qed

theorem C6_unpark_outcomes_witness:
  "lookup_level (run demo_lot [Park 2 car]) 1 = Some 0 \<and>
   snd (unpark (run demo_lot [Park 2 car]) 1 2) = Inr () \<and>
   snd (unpark (fst (unpark (run demo_lot [Park 2 car]) 1 2)) 1 2) = Inl AlreadyFree \<and>
   lookup_level (run demo_lot [Park 2 car]) 3 = None \<and>
   unpark (run demo_lot [Park 2 car]) 3 2 = (run demo_lot [Park 2 car], Inl UnknownLevel) \<and>
   Level_spots (store (run demo_lot [Park 2 car]) 0) 9 = None \<and>
   unpark (run demo_lot [Park 2 car]) 1 9 = (run demo_lot [Park 2 car], Inl UnknownSpot)"
proof -
  have a: "lookup_level (run demo_lot [Park 2 car]) 1 = Some 0"
    and b: "snd (unpark (run demo_lot [Park 2 car]) 1 2) = Inr ()"
    and c: "lookup_level (run demo_lot [Park 2 car]) 3 = None"
    and d: "Level_spots (store (run demo_lot [Park 2 car]) 0) 9 = None"
    by code_simp+
  have twice: "snd (unpark (fst (unpark (run demo_lot [Park 2 car]) 1 2)) 1 2) = Inl AlreadyFree"
    using C6_unpark_outcomes [of "run demo_lot [Park 2 car]" 1 2] b by blast
  have level: "unpark (run demo_lot [Park 2 car]) 3 2 = (run demo_lot [Park 2 car], Inl UnknownLevel)"
    using C6_unpark_outcomes [of "run demo_lot [Park 2 car]" 3 2] c by blast
  have spot: "unpark (run demo_lot [Park 2 car]) 1 9 = (run demo_lot [Park 2 car], Inl UnknownSpot)"
    using C6_unpark_outcomes [of "run demo_lot [Park 2 car]" 1 9] a d by blast
  from a b c d twice level spot show ?thesis by blast
qed

text \<open>In the lot whose two levels both have id 1, after two cars are parked and the first
  one is unparked, the second level has id 1 and its spot 1 is occupied, and \<^verbatim>\<open>unpark(1, 1)\<close>
  fails: the id resolves to the first level.\<close>

theorem C6_some_level_counterexample:
  "ParkingLot_levels (lot (run twin_lot [Park 1 car, Park 1 car, Unpark 1 1])) = [0, 1] \<and>
   Level_id (store (run twin_lot [Park 1 car, Park 1 car, Unpark 1 1]) 1) = 1 \<and>
   Level_spots (store (run twin_lot [Park 1 car, Park 1 car, Unpark 1 1]) 1) 1 =
     Some \<lparr>Spot_id = 1, Spot_vtype = CAR, Spot_is_occupied = True, Spot_vehicle = Some car\<rparr> \<and>
   snd (unpark (run twin_lot [Park 1 car, Park 1 car, Unpark 1 1]) 1 1) = Inl AlreadyFree"
  by code_simp

text \<open>
  C4 (amended). In a reachable state of a lot in which no two levels share an id, parking
  a vehicle and then immediately unparking at the returned \<open>(level_id, spot_id)\<close> succeeds
  and gives back the state before the park: the free count of the level for the vehicle's
  type, which the park had decreased by one, has its value before the park, and the spot
  the park had occupied and bound to the vehicle is unoccupied with no vehicle bound.
\<close>

theorem C4_round_trip:
  assumes "unique_ids (run (start args) xs)"
    and "park (run (start args) xs) hint vehicle = (s', Inr (Some level_id, Some spot_id))"
  shows "unpark s' level_id spot_id = (run (start args) xs, Inr ()) \<and>
    (\<exists>r. lookup_level (run (start args) xs) level_id = Some r \<and>
       Level_free_count (store s' r) (Vehicle_vtype vehicle)
         = Level_free_count (store (run (start args) xs) r) (Vehicle_vtype vehicle) - 1 \<and>
       Level_free_count (store (fst (unpark s' level_id spot_id)) r) (Vehicle_vtype vehicle)
         = Level_free_count (store (run (start args) xs) r) (Vehicle_vtype vehicle) \<and>
       Level_spots (store s' r) spot_id =
         Some \<lparr>Spot_id = spot_id, Spot_vtype = Vehicle_vtype vehicle,
               Spot_is_occupied = True, Spot_vehicle = Some vehicle\<rparr> \<and>
       Level_spots (store (fst (unpark s' level_id spot_id)) r) spot_id =
         Some \<lparr>Spot_id = spot_id, Spot_vtype = Vehicle_vtype vehicle,
               Spot_is_occupied = False, Spot_vehicle = None\<rparr>)"
proof -
  let ?s = "run (start args) xs"
  have inv: "state_inv ?s" by (rule state_inv_reachable)
  have restored: "unpark s' level_id spot_id = (?s, Inr ())"
    by (rule park_unpark [OF inv assms])
  from inv show ?thesis
  proof (cases rule: park_cases [where vehicle = vehicle and hint = hint])
    case none
    with assms(2) show ?thesis by simp
  next
    case (some r i)
    with assms(2) have s': "s' = ?s\<lparr>store := (store ?s)(r := occupy (store ?s r) i vehicle)\<rparr>"
      and ids: "level_id = Level_id (store ?s r)" "spot_id = i"
      by auto
    have "r \<in> set (ParkingLot_levels (lot ?s))"
      using first_free_Some [OF some(1)] by simp
    then have look: "lookup_level ?s level_id = Some r"
      using assms(1) ids(1) by (intro lookup_level_unique) simp_all
    have linv: "level_inv (store ?s r)" using inv by (simp add: state_inv_def)
    have free: "Level_spots (store ?s r) spot_id =
        Some \<lparr>Spot_id = spot_id, Spot_vtype = Vehicle_vtype vehicle,
              Spot_is_occupied = False, Spot_vehicle = None\<rparr>"
      using level_inv_free_spot [OF linv some(2)] ids(2) by simp
    have "Level_free_count (store s' r) (Vehicle_vtype vehicle)
         = Level_free_count (store ?s r) (Vehicle_vtype vehicle) - 1"
      "Level_spots (store s' r) spot_id =
         Some \<lparr>Spot_id = spot_id, Spot_vtype = Vehicle_vtype vehicle,
               Spot_is_occupied = True, Spot_vehicle = Some vehicle\<rparr>"
      by (simp_all add: s' ids occupy_def)
    with restored look free show ?thesis by simp
  qed
qed

lemma unique_ids_demo_lot: "unique_ids demo_lot"
proof -
  have "ParkingLot_levels (lot demo_lot) = [0, 1]"
    "Level_id (store demo_lot 0) = 1" "Level_id (store demo_lot 1) = 2"
    by code_simp+
  then show ?thesis by (simp add: unique_ids_def)
qed

theorem C4_round_trip_witness:
  "unique_ids demo_lot \<and>
   park demo_lot 2 car = (fst (park demo_lot 2 car), Inr (Some 1, Some 2)) \<and>
   unpark (fst (park demo_lot 2 car)) 1 2 = (demo_lot, Inr ()) \<and>
   Level_free_count (store demo_lot 0) CAR = 2 \<and>
   Level_free_count (store (fst (park demo_lot 2 car)) 0) CAR = 1"
proof -
  have res: "snd (park demo_lot 2 car) = Inr (Some 1, Some 2)"
    and cnt: "Level_free_count (store demo_lot 0) CAR = 2"
      "Level_free_count (store (fst (park demo_lot 2 car)) 0) CAR = 1"
    by code_simp+
  have p: "park demo_lot 2 car = (fst (park demo_lot 2 car), Inr (Some 1, Some 2))"
    using res by (simp add: prod_eq_iff)
  have u: "unique_ids (run (start demo_args) [AddLevel 0, AddLevel 1])"
    using unique_ids_demo_lot by (simp only: demo_lot_def)
  have "unpark (fst (park demo_lot 2 car)) 1 2 = (demo_lot, Inr ())"
    using C4_round_trip [OF u, of 2 car "fst (park demo_lot 2 car)" 1 2] p
    unfolding demo_lot_def [symmetric] by blast
  with unique_ids_demo_lot p cnt show ?thesis by blast
qed

text \<open>In the lot whose two levels both have id 1, with the first level full: the park takes
  spot 1 of the second level and returns \<open>(1, 1)\<close>; the unpark at \<open>(1, 1)\<close> succeeds on the first
  level. The free count of the second level stays 0, where it was 1 before the park, and
  its spot stays occupied.\<close>

theorem C4_round_trip_counterexample:
  "snd (park (run twin_lot [Park 1 car]) 1 car) = Inr (Some 1, Some 1) \<and>
   Level_free_count (store (run twin_lot [Park 1 car]) 1) CAR = 1 \<and>
   snd (unpark (fst (park (run twin_lot [Park 1 car]) 1 car)) 1 1) = Inr () \<and>
   Level_free_count (store (fst (unpark (fst (park (run twin_lot [Park 1 car]) 1 car)) 1 1)) 1) CAR = 0 \<and>
   Level_spots (store (fst (unpark (fst (park (run twin_lot [Park 1 car]) 1 car)) 1 1)) 1) 1 =
     Some \<lparr>Spot_id = 1, Spot_vtype = CAR, Spot_is_occupied = True, Spot_vehicle = Some car\<rparr>"
  by code_simp

text \<open>
  C3. In a reachable state, \<^verbatim>\<open>park(vehicle)\<close> goes through the levels in the order of the
  lot's sequence: when \<open>r\<close> is the first level whose free set for the vehicle's type is not
  empty, it takes a spot id \<open>i\<close> out of that set, marks the spot occupied and bound to the
  vehicle, decreases the level's free count for the type by one, changes nothing else, and
  returns the id of that level and the id of that spot. In the reference configuration
  (level 1 with 2 car and 2 bike spots, level 2 with 1 car and 3 bike spots, all free),
  parking a car, whichever spot the set yields, assigns a spot of level 1 and leaves the
  free count of level 1 for cars at 1.
\<close>

theorem C3_park_first_level:
  "(ParkingLot_levels (lot (run (start args) xs)) = pre @ r # post \<and>
    (\<forall>r' \<in> set pre. Level_free_spots (store (run (start args) xs) r') (Vehicle_vtype vehicle) = {}) \<and>
    Level_free_spots (store (run (start args) xs) r) (Vehicle_vtype vehicle) \<noteq> {} \<longrightarrow>
    (\<exists>i \<in> Level_free_spots (store (run (start args) xs) r) (Vehicle_vtype vehicle).
       Level_spots (store (run (start args) xs) r) i =
         Some \<lparr>Spot_id = i, Spot_vtype = Vehicle_vtype vehicle,
               Spot_is_occupied = False, Spot_vehicle = None\<rparr> \<and>
       park (run (start args) xs) hint vehicle =
         ((run (start args) xs)
            \<lparr>store := (store (run (start args) xs))
               (r := occupy (store (run (start args) xs) r) i vehicle)\<rparr>,
          Inr (Some (Level_id (store (run (start args) xs) r)), Some i)))) \<and>
   (\<exists>i. snd (park demo_lot hint car) = Inr (Some 1, Some i) \<and>
      Level_id (store demo_lot 0) = 1 \<and>
      Level_spots (store (fst (park demo_lot hint car)) 0) i =
        Some \<lparr>Spot_id = i, Spot_vtype = CAR, Spot_is_occupied = True, Spot_vehicle = Some car\<rparr> \<and>
      Level_free_count (store (fst (park demo_lot hint car)) 0) CAR = 1)"
proof
  let ?s = "run (start args) xs"
  show "ParkingLot_levels (lot ?s) = pre @ r # post \<and>
    (\<forall>r' \<in> set pre. Level_free_spots (store ?s r') (Vehicle_vtype vehicle) = {}) \<and>
    Level_free_spots (store ?s r) (Vehicle_vtype vehicle) \<noteq> {} \<longrightarrow>
    (\<exists>i \<in> Level_free_spots (store ?s r) (Vehicle_vtype vehicle).
       Level_spots (store ?s r) i =
         Some \<lparr>Spot_id = i, Spot_vtype = Vehicle_vtype vehicle,
               Spot_is_occupied = False, Spot_vehicle = None\<rparr> \<and>
       park ?s hint vehicle =
         (?s\<lparr>store := (store ?s)(r := occupy (store ?s r) i vehicle)\<rparr>,
          Inr (Some (Level_id (store ?s r)), Some i)))"
  proof
    assume h: "ParkingLot_levels (lot ?s) = pre @ r # post \<and>
      (\<forall>r' \<in> set pre. Level_free_spots (store ?s r') (Vehicle_vtype vehicle) = {}) \<and>
      Level_free_spots (store ?s r) (Vehicle_vtype vehicle) \<noteq> {}"
    have inv: "state_inv ?s" by (rule state_inv_reachable)
    have first: "first_free (store ?s) (ParkingLot_levels (lot ?s)) (Vehicle_vtype vehicle) = Some r"
      using h first_free_append [of pre "store ?s" "Vehicle_vtype vehicle" r post] by simp
    define i where "i = fst (set_pop hint (Level_free_spots (store ?s r) (Vehicle_vtype vehicle)))"
    note p = park_some [OF inv first i_def]
    have "level_inv (store ?s r)" using inv by (simp add: state_inv_def)
    from level_inv_free_spot [OF this p(2)] p
    show "\<exists>i \<in> Level_free_spots (store ?s r) (Vehicle_vtype vehicle).
       Level_spots (store ?s r) i =
         Some \<lparr>Spot_id = i, Spot_vtype = Vehicle_vtype vehicle,
               Spot_is_occupied = False, Spot_vehicle = None\<rparr> \<and>
       park ?s hint vehicle =
         (?s\<lparr>store := (store ?s)(r := occupy (store ?s r) i vehicle)\<rparr>,
          Inr (Some (Level_id (store ?s r)), Some i))"
      by blast
  qed
next
  have inv: "state_inv demo_lot"
    unfolding demo_lot_def by (rule state_inv_reachable)
  have first: "first_free (store demo_lot) (ParkingLot_levels (lot demo_lot)) (Vehicle_vtype car) = Some 0"
    and lid: "Level_id (store demo_lot 0) = 1"
    and cnt: "Level_free_count (store demo_lot 0) CAR = 2"
    and vt: "Vehicle_vtype car = CAR"
    by code_simp+
  define i where "i = fst (set_pop hint (Level_free_spots (store demo_lot 0) (Vehicle_vtype car)))"
  note p = park_some [OF inv first i_def]
  have "snd (park demo_lot hint car) = Inr (Some 1, Some i)"
    using p(1) lid by simp
  moreover have "Level_free_count (store (fst (park demo_lot hint car)) 0) CAR = 1"
    using p(1) cnt vt by (simp add: occupy_def)
  moreover have "Level_spots (store (fst (park demo_lot hint car)) 0) i =
        Some \<lparr>Spot_id = i, Spot_vtype = CAR, Spot_is_occupied = True, Spot_vehicle = Some car\<rparr>"
    using p(1) vt by (simp add: occupy_def)
  ultimately show "\<exists>i. snd (park demo_lot hint car) = Inr (Some 1, Some i) \<and>
      Level_id (store demo_lot 0) = 1 \<and>
      Level_spots (store (fst (park demo_lot hint car)) 0) i =
        Some \<lparr>Spot_id = i, Spot_vtype = CAR, Spot_is_occupied = True, Spot_vehicle = Some car\<rparr> \<and>
      Level_free_count (store (fst (park demo_lot hint car)) 0) CAR = 1"
    using lid by blast
qed

theorem C3_park_first_level_witness:
  "ParkingLot_levels (lot (run demo_lot [Park 1 car, Park 2 car])) = [0] @ 1 # [] \<and>
   Level_free_spots (store (run demo_lot [Park 1 car, Park 2 car]) 0) (Vehicle_vtype car) = {} \<and>
   Level_free_spots (store (run demo_lot [Park 1 car, Park 2 car]) 1) (Vehicle_vtype car) = {1} \<and>
   snd (park (run demo_lot [Park 1 car, Park 2 car]) 5 car) = Inr (Some 2, Some 1)"
proof -
  let ?s = "run demo_lot [Park 1 car, Park 2 car]"
  have a: "ParkingLot_levels (lot ?s) = [0] @ 1 # []"
    and b: "Level_free_spots (store ?s 0) (Vehicle_vtype car) = {}"
    and c: "Level_free_spots (store ?s 1) (Vehicle_vtype car) = {1}"
    and d: "Level_id (store ?s 1) = 2"
    by code_simp+
  have b': "\<forall>r' \<in> set [0]. Level_free_spots (store ?s r') (Vehicle_vtype car) = {}"
    using b by simp
  have "\<exists>i \<in> Level_free_spots (store ?s 1) (Vehicle_vtype car).
      snd (park ?s 5 car) = Inr (Some (Level_id (store ?s 1)), Some i)"
    using C3_park_first_level [of demo_args "[AddLevel 0, AddLevel 1] @ [Park 1 car, Park 2 car]"
        "[0]" 1 "[]" car 5, folded demo_lot_run] a b' c
    by (fastforce simp del: run.simps)
  then have "snd (park ?s 5 car) = Inr (Some 2, Some 1)"
    using c d by (simp del: run.simps)
  with a b c show ?thesis by blast
qed

lemma Level_free_count_occupy:
  "Level_free_count (occupy level i vehicle) t =
     Level_free_count level t - (if Vehicle_vtype vehicle = t then 1 else 0)"
  by (simp add: occupy_def)

lemma total_free_park:
  assumes "state_inv s"
  shows "total_free (fst (park s hint vehicle)) t =
     total_free s t - (if assigned t (Park hint vehicle) (Parked (snd (park s hint vehicle))) then 1 else 0)"
  using assms
proof (cases rule: park_cases [where vehicle = vehicle and hint = hint])
  case none
  then show ?thesis by simp
next
  case (some r i)
  let ?S = "set (ParkingLot_levels (lot s))"
  let ?h = "(store s)(r := occupy (store s r) i vehicle)"
  have r: "r \<in> ?S" using first_free_Some [OF some(1)] by simp
  have "(\<Sum>x \<in> ?S. Level_free_count (?h x) t)
      = Level_free_count (?h r) t + (\<Sum>x \<in> ?S - {r}. Level_free_count (?h x) t)"
    by (rule sum.remove) (simp_all add: r)
  also have "(\<Sum>x \<in> ?S - {r}. Level_free_count (?h x) t)
      = (\<Sum>x \<in> ?S - {r}. Level_free_count (store s x) t)"
    by (rule sum.cong) simp_all
  also have "Level_free_count (?h r) t
      = Level_free_count (store s r) t - (if Vehicle_vtype vehicle = t then 1 else 0)"
    by (simp add: Level_free_count_occupy)
  finally have "(\<Sum>x \<in> ?S. Level_free_count (?h x) t)
      = (Level_free_count (store s r) t + (\<Sum>x \<in> ?S - {r}. Level_free_count (store s x) t))
        - (if Vehicle_vtype vehicle = t then 1 else 0)"
    by simp
  also have "Level_free_count (store s r) t + (\<Sum>x \<in> ?S - {r}. Level_free_count (store s x) t)
      = (\<Sum>x \<in> ?S. Level_free_count (store s x) t)"
    by (rule sum.remove [symmetric]) (simp_all add: r)
  finally show ?thesis
    using some(3) by (simp add: total_free_def)
qed

lemma total_free_exec_op:
  assumes "state_inv s" "parks_or_reads x"
  shows "total_free (fst (exec_op s x)) t =
     total_free s t - (if assigned t x (snd (exec_op s x)) then 1 else 0)"
proof (cases x)
  case (Park hint vehicle)
  then show ?thesis
    using total_free_park [OF assms(1), of hint vehicle t] by (simp add: split_beta)
next
  case Display
  then show ?thesis by (simp add: split_beta display_availability_state)
qed (use assms(2) in simp_all)

lemma total_free_run:
  assumes "state_inv s" "\<forall>x \<in> set xs. parks_or_reads x"
  shows "total_free (run s xs) t = total_free s t - int (parked t s xs)"
  using assms
proof (induction xs arbitrary: s)
  case Nil
  then show ?case by simp
next
  case (Cons x xs)
  have "total_free (run (fst (exec_op s x)) xs) t
      = total_free (fst (exec_op s x)) t - int (parked t (fst (exec_op s x)) xs)"
    using Cons.prems by (intro Cons.IH state_inv_exec_op) simp_all
  then show ?case
    using total_free_exec_op [of s x t] Cons.prems by simp
qed

lemma run_AddLevels:
  "run s (map AddLevel rs) = s\<lparr>lot := \<lparr>ParkingLot_levels = ParkingLot_levels (lot s) @ rs\<rparr>\<rparr>"
  by (induction rs arbitrary: s) (simp_all add: add_level_def)

lemma total_free_fresh:
  "total_free (run (start args) (map AddLevel rs)) t =
     (\<Sum>r \<in> set rs. capacity (new_level (args r)) t)"
proof -
  have "Level_free_count (new_level a) t = capacity (new_level a) t" for a
    by (simp add: new_level_def Level_init_free_count capacity_Level_init)
  then show ?thesis
    by (simp add: run_AddLevels total_free_def start_def ParkingLot_init_def)
qed

lemma total_free_zero:
  assumes "state_inv s" "total_free s t = 0" "r \<in> set (ParkingLot_levels (lot s))"
  shows "Level_free_spots (store s r) t = {}"
proof -
  have nonneg: "0 \<le> Level_free_count (store s x) t" for x
    using assms(1) by (simp add: state_inv_def level_inv_def)
  have "(\<Sum>x \<in> set (ParkingLot_levels (lot s)). Level_free_count (store s x) t) = 0"
    using assms(2) by (simp add: total_free_def)
  then have "Level_free_count (store s r) t = 0"
    using assms(3) nonneg by (simp add: sum_nonneg_eq_0_iff)
  moreover have "level_inv (store s r)" using assms(1) by (simp add: state_inv_def)
  ultimately show ?thesis
    using level_inv_finite_free [of "store s r" t] by (simp add: level_inv_def)
qed

text \<open>
  C5. When no level of the lot has a free spot of the vehicle's type, \<^verbatim>\<open>park\<close> returns the pair
  \<^verbatim>\<open>(None, None)\<close> and changes nothing; it raises no error. In a reachable state \<^verbatim>\<open>park\<close> never
  raises, it returns \<^verbatim>\<open>(None, None)\<close> exactly when no level has a free spot of the type, and
  every other result is a pair of a level id and a spot id, which differs from
  \<^verbatim>\<open>(None, None)\<close>. For a fresh lot with the levels \<open>rs\<close> whose car capacities sum to \<open>C\<close>, after
  a program of parks and reports in which \<open>C\<close> parks of a car returned a location, the next
  park of a car returns \<^verbatim>\<open>(None, None)\<close>, whatever the free sets of bike spots are.
\<close>

theorem C5_unavailable:
  "((\<forall>r \<in> set (ParkingLot_levels (lot s)). Level_free_spots (store s r) (Vehicle_vtype vehicle) = {})
      \<longrightarrow> park s hint vehicle = (s, Inr (None, None))) \<and>
   (snd (park (run (start args) xs) hint vehicle) = Inr (None, None) \<longleftrightarrow>
      (\<forall>r \<in> set (ParkingLot_levels (lot (run (start args) xs))).
         Level_free_spots (store (run (start args) xs) r) (Vehicle_vtype vehicle) = {})) \<and>
   (snd (park (run (start args) xs) hint vehicle) \<noteq> Inr (None, None) \<longrightarrow>
      (\<exists>l i. snd (park (run (start args) xs) hint vehicle) = Inr (Some l, Some i))) \<and>
   ((\<forall>x \<in> set ys. parks_or_reads x) \<and>
    int (parked CAR (run (start args) (map AddLevel rs)) ys)
      = (\<Sum>r \<in> set rs. capacity (new_level (args r)) CAR) \<and>
    Vehicle_vtype vehicle = CAR \<longrightarrow>
      snd (park (run (run (start args) (map AddLevel rs)) ys) hint vehicle) = Inr (None, None))"
proof (intro conjI)
  show "(\<forall>r \<in> set (ParkingLot_levels (lot s)). Level_free_spots (store s r) (Vehicle_vtype vehicle) = {})
      \<longrightarrow> park s hint vehicle = (s, Inr (None, None))"
    using park_none [of s vehicle hint] by (simp add: first_free_None)
next
  let ?s = "run (start args) xs"
  have inv: "state_inv ?s" by (rule state_inv_reachable)
  from inv show "snd (park ?s hint vehicle) = Inr (None, None) \<longleftrightarrow>
      (\<forall>r \<in> set (ParkingLot_levels (lot ?s)). Level_free_spots (store ?s r) (Vehicle_vtype vehicle) = {})"
  proof (cases rule: park_cases [where vehicle = vehicle and hint = hint])
    case none
    then show ?thesis by (simp add: first_free_None)
  next
    case (some r i)
    then show ?thesis using first_free_Some [OF some(1)] by auto
  qed
  from inv show "snd (park ?s hint vehicle) \<noteq> Inr (None, None) \<longrightarrow>
      (\<exists>l i. snd (park ?s hint vehicle) = Inr (Some l, Some i))"
    by (cases rule: park_cases [where vehicle = vehicle and hint = hint]) simp_all
next
  let ?s0 = "run (start args) (map AddLevel rs)"
  show "(\<forall>x \<in> set ys. parks_or_reads x) \<and>
    int (parked CAR ?s0 ys) = (\<Sum>r \<in> set rs. capacity (new_level (args r)) CAR) \<and>
    Vehicle_vtype vehicle = CAR \<longrightarrow>
      snd (park (run ?s0 ys) hint vehicle) = Inr (None, None)"
  proof
    assume h: "(\<forall>x \<in> set ys. parks_or_reads x) \<and>
      int (parked CAR ?s0 ys) = (\<Sum>r \<in> set rs. capacity (new_level (args r)) CAR) \<and>
      Vehicle_vtype vehicle = CAR"
    have inv0: "state_inv ?s0" by (rule state_inv_reachable)
    then have inv: "state_inv (run ?s0 ys)" by (rule state_inv_run)
    have "total_free (run ?s0 ys) CAR = total_free ?s0 CAR - int (parked CAR ?s0 ys)"
      using h by (intro total_free_run [OF inv0]) simp
    then have zero: "total_free (run ?s0 ys) CAR = 0"
      using h by (simp add: total_free_fresh del: run.simps)
    have "first_free (store (run ?s0 ys)) (ParkingLot_levels (lot (run ?s0 ys))) (Vehicle_vtype vehicle) = None"
      using total_free_zero [OF inv zero] h by (simp add: first_free_None)
    then show "snd (park (run ?s0 ys) hint vehicle) = Inr (None, None)"
      by (simp add: park_none)
  qed
qed

theorem C5_unavailable_witness:
  "list_all parks_or_reads [Park 1 car, Park 3 bike, Park 2 car, Display, Park 1 car] \<and>
   parked CAR demo_lot [Park 1 car, Park 3 bike, Park 2 car, Display, Park 1 car] = 3 \<and>
   (\<Sum>r \<in> set [0, 1]. capacity (new_level (demo_args r)) CAR) = 3 \<and>
   Level_free_spots (store (run demo_lot [Park 1 car, Park 3 bike, Park 2 car, Display, Park 1 car]) 0) BIKE = {4} \<and>
   snd (park (run demo_lot [Park 1 car, Park 3 bike, Park 2 car, Display, Park 1 car]) 1 car)
     = Inr (None, None)"
proof -
  let ?ys = "[Park 1 car, Park 3 bike, Park 2 car, Display, Park 1 car]"
  have a: "\<forall>x \<in> set ?ys. parks_or_reads x" by simp
  have b: "parked CAR demo_lot ?ys = 3"
    and c: "Level_free_spots (store (run demo_lot ?ys) 0) BIKE = {4}"
    and d: "Vehicle_vtype car = CAR"
    by code_simp+
  have e: "(\<Sum>r \<in> set [0, 1]. capacity (new_level (demo_args r)) CAR) = 3"
    by (simp add: demo_args_def new_level_def capacity_Level_init)
  have f: "run (start demo_args) (map AddLevel [0, 1]) = demo_lot"
    by (simp add: demo_lot_def)
  have "snd (park (run demo_lot ?ys) 1 car) = Inr (None, None)"
    using C5_unavailable [of demo_lot car 1 demo_args "[]" ?ys "[0, 1]"] a b d e
    unfolding f by (simp del: run.simps parked.simps)
  moreover have "list_all parks_or_reads ?ys" by simp
  ultimately show ?thesis using b c e by blast
qed

lemma occupied_at_iff:
  "occupied_at s level_id spot_id \<longleftrightarrow>
     (\<exists>r spot. lookup_level s level_id = Some r \<and> Level_spots (store s r) spot_id = Some spot \<and>
        Spot_is_occupied spot)"
  by (auto simp: occupied_at_def split: option.splits)

lemma park_occupies:
  assumes "state_inv s" "unique_ids s"
    and "park s hint vehicle = (s', Inr (Some level_id, Some spot_id))"
  shows "\<not> occupied_at s level_id spot_id \<and> occupied_at s' level_id spot_id"
  using assms(1)
proof (cases rule: park_cases [where vehicle = vehicle and hint = hint])
  case none
  with assms(3) show ?thesis by simp
next
  case (some r i)
  with assms(3) have s': "s' = s\<lparr>store := (store s)(r := occupy (store s r) i vehicle)\<rparr>"
    and ids: "level_id = Level_id (store s r)" "spot_id = i"
    by auto
  have "r \<in> set (ParkingLot_levels (lot s))"
    using first_free_Some [OF some(1)] by simp
  then have look: "lookup_level s level_id = Some r"
    using assms(2) ids(1) by (intro lookup_level_unique) simp_all
  have "lookup_level s' level_id = lookup_level s level_id"
    by (rule lookup_level_same_ids) (simp_all add: s' Level_id_occupy)
  with look have look': "lookup_level s' level_id = Some r" by simp
  have "level_inv (store s r)" using assms(1) by (simp add: state_inv_def)
  from level_inv_free_spot [OF this some(2)] look look' show ?thesis
    by (simp add: occupied_at_def s' ids occupy_def)
qed

lemma find_append_Some: "find P xs = Some x \<Longrightarrow> find P (xs @ ys) = Some x"
  by (induction xs) (simp_all split: if_splits)

lemma lookup_level_add_level:
  "lookup_level s level_id = Some r \<Longrightarrow>
     lookup_level (s\<lparr>lot := add_level (lot s) r'\<rparr>) level_id = Some r"
  by (simp add: lookup_level_def add_level_def find_append_Some)

lemma occupied_at_park:
  assumes "state_inv s" "occupied_at s level_id spot_id"
  shows "occupied_at (fst (park s hint vehicle)) level_id spot_id"
  using assms(1)
proof (cases rule: park_cases [where vehicle = vehicle and hint = hint])
  case none
  with assms(2) show ?thesis by simp
next
  case (some r i)
  let ?s' = "s\<lparr>store := (store s)(r := occupy (store s r) i vehicle)\<rparr>"
  have "lookup_level ?s' level_id = lookup_level s level_id"
    by (rule lookup_level_same_ids) (simp_all add: Level_id_occupy)
  with assms(2) have "occupied_at ?s' level_id spot_id"
    by (auto simp: occupied_at_iff occupy_def)
  with some(3) show ?thesis by simp
qed

lemma occupied_at_unpark:
  assumes "occupied_at s level_id spot_id" "(level_id', spot_id') \<noteq> (level_id, spot_id)"
  shows "occupied_at (fst (unpark s level_id' spot_id')) level_id spot_id"
proof (cases "snd (unpark s level_id' spot_id')")
  case (Inl e)
  then show ?thesis
    using assms(1) by (auto simp: unpark_eq split: option.splits if_splits)
next
  case (Inr u)
  then obtain r' spot' where h: "lookup_level s level_id' = Some r'"
      "Level_spots (store s r') spot_id' = Some spot'" "Spot_is_occupied spot'"
    by (auto simp: unpark_eq split: option.splits if_splits)
  let ?s' = "s\<lparr>store := (store s)(r' := vacate (store s r') spot_id' spot')\<rparr>"
  have s': "fst (unpark s level_id' spot_id') = ?s'"
    using h by (simp add: unpark_eq)
  from assms(1) obtain r spot where o: "lookup_level s level_id = Some r"
      "Level_spots (store s r) spot_id = Some spot" "Spot_is_occupied spot"
    by (auto simp: occupied_at_iff)
  have look: "lookup_level ?s' level_id = Some r"
    using o(1) lookup_level_same_ids [of ?s' s level_id] by (simp add: vacate_def)
  have "Level_spots (store ?s' r) spot_id = Some spot"
  proof (cases "r = r'")
    case True
    with h(1) o(1) have "level_id' = level_id" by (auto simp: lookup_level_Some)
    with assms(2) have "spot_id' \<noteq> spot_id" by simp
    with o(2) True show ?thesis by (simp add: vacate_def)
  next
    case False
    with o(2) show ?thesis by simp
  qed
  with look o(3) show ?thesis
    unfolding s' by (auto simp: occupied_at_iff)
qed

lemma occupied_at_exec_op:
  assumes "state_inv s" "occupied_at s level_id spot_id" "x \<noteq> Unpark level_id spot_id"
  shows "occupied_at (fst (exec_op s x)) level_id spot_id"
proof (cases x)
  case (AddLevel r')
  with assms(2) show ?thesis
    by (auto simp: occupied_at_iff dest: lookup_level_add_level [where r' = r'])
next
  case (Park hint vehicle)
  with occupied_at_park [OF assms(1,2)] show ?thesis by (simp add: split_beta)
next
  case (Unpark level_id' spot_id')
  with assms(3) have "(level_id', spot_id') \<noteq> (level_id, spot_id)" by simp
  from occupied_at_unpark [OF assms(2) this] Unpark show ?thesis by (simp add: split_beta)
next
  case Display
  with assms(2) show ?thesis by (simp add: split_beta display_availability_state)
qed

lemma occupied_at_run:
  assumes "state_inv s" "occupied_at s level_id spot_id" "Unpark level_id spot_id \<notin> set xs"
  shows "occupied_at (run s xs) level_id spot_id"
  using assms
proof (induction xs arbitrary: s)
  case Nil
  then show ?case by simp
next
  case (Cons x xs)
  have "occupied_at (fst (exec_op s x)) level_id spot_id"
    using Cons.prems by (intro occupied_at_exec_op) auto
  then show ?case
    using Cons.prems by (simp add: Cons.IH state_inv_exec_op)
qed

lemma levels_exec_op:
  "set (ParkingLot_levels (lot s)) \<subseteq> set (ParkingLot_levels (lot (fst (exec_op s x))))"
  by (cases x) (auto simp: split_beta lot_park lot_unpark display_availability_state add_level_def)

lemma levels_run:
  "set (ParkingLot_levels (lot s)) \<subseteq> set (ParkingLot_levels (lot (run s xs)))"
proof (induction xs arbitrary: s)
  case Nil
  then show ?case by simp
next
  case (Cons x xs)
  from levels_exec_op [of s x] Cons [of "fst (exec_op s x)"] show ?case by auto
qed

lemma Level_id_run: "state_inv s \<Longrightarrow> Level_id (store (run s xs) r) = Level_id (store s r)"
  using shape_run [of s xs r] by (simp add: shape_def)

lemma unique_ids_before:
  assumes "state_inv s" "unique_ids (run s xs)"
  shows "unique_ids s"
proof -
  have "inj_on (\<lambda>r. Level_id (store (run s xs) r)) (set (ParkingLot_levels (lot s)))"
    using assms(2) levels_run [of s xs] unfolding unique_ids_def by (rule inj_on_subset)
  then show ?thesis
    by (simp add: unique_ids_def Level_id_run [OF assms(1)])
qed

text \<open>
  C2 (amended). In a reachable state \<^verbatim>\<open>park\<close> never binds a vehicle to a spot that is
  occupied: the spot it takes is a spot of a level of the lot that is not occupied and has
  no vehicle, and it becomes occupied by the one vehicle parked (a spot holds at most one
  vehicle reference). When no two levels of the lot share an id, two calls of \<^verbatim>\<open>park\<close> that
  return the same \<open>(level_id, spot_id)\<close> have an \<^verbatim>\<open>unpark(level_id, spot_id)\<close> between them.
\<close>

theorem C2_no_double_allocation:
  "(park (run (start args) xs) hint vehicle = (s', Inr (Some level_id, Some spot_id)) \<longrightarrow>
      (\<exists>r \<in> set (ParkingLot_levels (lot (run (start args) xs))).
         Level_id (store (run (start args) xs) r) = level_id \<and>
         Level_spots (store (run (start args) xs) r) spot_id =
           Some \<lparr>Spot_id = spot_id, Spot_vtype = Vehicle_vtype vehicle,
                 Spot_is_occupied = False, Spot_vehicle = None\<rparr> \<and>
         s' = (run (start args) xs)
                \<lparr>store := (store (run (start args) xs))
                   (r := occupy (store (run (start args) xs) r) spot_id vehicle)\<rparr>)) \<and>
   (park (run (start args) xs) hint vehicle = (s', Inr (Some level_id, Some spot_id)) \<and>
    park (run s' ys) hint' vehicle' = (s'', Inr (Some level_id, Some spot_id)) \<and>
    unique_ids (run s' ys) \<longrightarrow>
      Unpark level_id spot_id \<in> set ys)"
proof (intro conjI impI)
  let ?s = "run (start args) xs"
  assume p: "park ?s hint vehicle = (s', Inr (Some level_id, Some spot_id))"
  have inv: "state_inv ?s" by (rule state_inv_reachable)
  from inv show "\<exists>r \<in> set (ParkingLot_levels (lot ?s)).
         Level_id (store ?s r) = level_id \<and>
         Level_spots (store ?s r) spot_id =
           Some \<lparr>Spot_id = spot_id, Spot_vtype = Vehicle_vtype vehicle,
                 Spot_is_occupied = False, Spot_vehicle = None\<rparr> \<and>
         s' = ?s\<lparr>store := (store ?s)(r := occupy (store ?s r) spot_id vehicle)\<rparr>"
  proof (cases rule: park_cases [where vehicle = vehicle and hint = hint])
    case none
    with p show ?thesis by simp
  next
    case (some r i)
    have "level_inv (store ?s r)" using inv by (simp add: state_inv_def)
    from level_inv_free_spot [OF this some(2)] first_free_Some [OF some(1)] some(3) p
    show ?thesis by auto
  qed
next
  let ?s = "run (start args) xs"
  assume h: "park ?s hint vehicle = (s', Inr (Some level_id, Some spot_id)) \<and>
    park (run s' ys) hint' vehicle' = (s'', Inr (Some level_id, Some spot_id)) \<and>
    unique_ids (run s' ys)"
  have inv: "state_inv ?s" by (rule state_inv_reachable)
  have s': "s' = fst (park ?s hint vehicle)" using h by simp
  have inv': "state_inv s'" unfolding s' by (rule state_inv_park [OF inv])
  have inv'': "state_inv (run s' ys)" by (rule state_inv_run [OF inv'])
  have "unique_ids (run s' ys)" using h by simp
  then have u': "unique_ids s'" by (rule unique_ids_before [OF inv'])
  have u: "unique_ids ?s"
    using u' shape_park [OF inv, of hint vehicle] by (simp add: unique_ids_def s' lot_park shape_def)
  have occ: "occupied_at s' level_id spot_id"
    using park_occupies [OF inv u, of hint vehicle s' level_id spot_id] h by simp
  show "Unpark level_id spot_id \<in> set ys"
  proof (rule ccontr)
    assume "Unpark level_id spot_id \<notin> set ys"
    then have "occupied_at (run s' ys) level_id spot_id"
      by (rule occupied_at_run [OF inv' occ])
    moreover have "\<not> occupied_at (run s' ys) level_id spot_id"
      using park_occupies [OF inv'', of hint' vehicle' s'' level_id spot_id] h by simp
    ultimately show False by simp
  qed
qed

text \<open>In the lot whose two levels both have id 1, two parks in a row return \<open>(1, 1)\<close>.\<close>

theorem C2_same_location_counterexample:
  "snd (park twin_lot 1 car) = Inr (Some 1, Some 1) \<and>
   snd (park (fst (park twin_lot 1 car)) 1 bike) = Inr (None, None) \<and>
   snd (park (fst (park twin_lot 1 car)) 1 car) = Inr (Some 1, Some 1)"
  by code_simp

theorem C2_no_double_allocation_witness:
  "snd (park demo_lot 2 car) = Inr (Some 1, Some 2) \<and>
   snd (park (run (fst (park demo_lot 2 car)) [Park 3 bike, Unpark 1 2]) 2 car) = Inr (Some 1, Some 2) \<and>
   unique_ids (run (fst (park demo_lot 2 car)) [Park 3 bike, Unpark 1 2]) \<and>
   Unpark 1 2 \<in> set [Park 3 bike, Unpark 1 2] \<and>
   Level_spots (store demo_lot 0) 2 =
     Some \<lparr>Spot_id = 2, Spot_vtype = CAR, Spot_is_occupied = False, Spot_vehicle = None\<rparr>"
proof -
  let ?s' = "fst (park demo_lot 2 car)"
  let ?t = "run ?s' [Park 3 bike, Unpark 1 2]"
  have a: "snd (park demo_lot 2 car) = Inr (Some 1, Some 2)"
    and b: "snd (park ?t 2 car) = Inr (Some 1, Some 2)"
    and c: "ParkingLot_levels (lot ?t) = [0, 1]" "Level_id (store ?t 0) = 1" "Level_id (store ?t 1) = 2"
    and d: "Level_spots (store demo_lot 0) 2 =
       Some \<lparr>Spot_id = 2, Spot_vtype = CAR, Spot_is_occupied = False, Spot_vehicle = None\<rparr>"
    by code_simp+
  have u: "unique_ids ?t"
    using c by (simp add: unique_ids_def del: run.simps)
  have p1: "park (run (start demo_args) [AddLevel 0, AddLevel 1]) 2 car = (?s', Inr (Some 1, Some 2))"
    using a by (simp add: prod_eq_iff demo_lot_def)
  have p2: "park ?t 2 car = (fst (park ?t 2 car), Inr (Some 1, Some 2))"
    using b by (simp add: prod_eq_iff del: run.simps)
  have "Unpark 1 2 \<in> set [Park 3 bike, Unpark 1 2]"
    using C2_no_double_allocation [of demo_args "[AddLevel 0, AddLevel 1]" 2 car ?s' 1 2
        "[Park 3 bike, Unpark 1 2]" 2 car "fst (park ?t 2 car)"] p1 p2 u
    by blast
  with a b u d show ?thesis by blast
qed

end
